theory Spec2Isabelle
  imports Main
begin

section \<open>Identifier model (pura/compound.py)\<close>

text \<open>
  \<^verbatim>\<open>class CompoundIdentifierType(Enum)\<close>: the members the class body declares, in
  declaration order.
\<close>

datatype CompoundIdentifierType =
    UNSPECIFIED | CUSTOM | SMILES | INCHI | MOLBLOCK | IUPAC_NAME | NAME | CAS_NUMBER
  | PUBCHEM_CID | CHEMSPIDER_ID | CXSMILES | INCHI_KEY | XYZ | UNIPROT_ID | PDB_ID
  | AMINO_ACID_SEQUENCE | HELM

text \<open>The numeric value of each member (\<^verbatim>\<open>member.value\<close>).\<close>

fun enum_value :: "CompoundIdentifierType \<Rightarrow> nat" where
  "enum_value UNSPECIFIED = 0"
| "enum_value CUSTOM = 1"
| "enum_value SMILES = 2"
| "enum_value INCHI = 3"
| "enum_value MOLBLOCK = 4"
| "enum_value IUPAC_NAME = 5"
| "enum_value NAME = 6"
| "enum_value CAS_NUMBER = 7"
| "enum_value PUBCHEM_CID = 8"
| "enum_value CHEMSPIDER_ID = 9"
| "enum_value CXSMILES = 10"
| "enum_value INCHI_KEY = 11"
| "enum_value XYZ = 12"
| "enum_value UNIPROT_ID = 13"
| "enum_value PDB_ID = 14"
| "enum_value AMINO_ACID_SEQUENCE = 15"
| "enum_value HELM = 16"

text \<open>
  \<^verbatim>\<open>CompoundIdentifierType.__members__\<close>: member name to member, in declaration order.
\<close>

definition members :: "(string \<times> CompoundIdentifierType) list" where
  "members =
     [(''UNSPECIFIED'', UNSPECIFIED), (''CUSTOM'', CUSTOM), (''SMILES'', SMILES),
      (''INCHI'', INCHI), (''MOLBLOCK'', MOLBLOCK), (''IUPAC_NAME'', IUPAC_NAME),
      (''NAME'', NAME), (''CAS_NUMBER'', CAS_NUMBER), (''PUBCHEM_CID'', PUBCHEM_CID),
      (''CHEMSPIDER_ID'', CHEMSPIDER_ID), (''CXSMILES'', CXSMILES),
      (''INCHI_KEY'', INCHI_KEY), (''XYZ'', XYZ), (''UNIPROT_ID'', UNIPROT_ID),
      (''PDB_ID'', PDB_ID), (''AMINO_ACID_SEQUENCE'', AMINO_ACID_SEQUENCE),
      (''HELM'', HELM)]"

text \<open>
  \<^verbatim>\<open>class CompoundIdentifier(BaseModel)\<close>. The field \<^verbatim>\<open>value\<close> is written
  \<open>value'\<close> here.
\<close>

record CompoundIdentifier =
  identifier_type :: CompoundIdentifierType
  value' :: string
  details :: "string option"

text \<open>
  The exceptions the modelled code raises or handles. The web exceptions are the ones
  \<^verbatim>\<open>request\<close> names (pura/services/pubchem.py); \<open>Transport\<close> stands for the
  client-side exceptions listed in \<^verbatim>\<open>aiohttp_errors\<close> (pura/resolvers.py); the others
  are Python's own, one constructor per kind of place that raises (a call that lacks
  required arguments, with their names; a call with a keyword that names no parameter).
\<close>

datatype transport_error =
    ClientConnectionError | TimeoutError | ClientConnectorCertificateError
  | ClientConnectorError | ClientConnectorSSLError | ClientError | ClientHttpProxyError
  | ClientOSError | ClientPayloadError | ClientProxyConnectionError | ClientResponseError
  | ClientSSLError | ContentTypeError | InvalidURL | ServerConnectionError
  | ServerDisconnectedError | ServerFingerprintMismatch | ServerTimeoutError
  | WSServerHandshakeError | AsyncioTimeoutError

datatype exn =
    HTTPBadRequest
  | HTTPNotFound
  | HTTPMethodNotAllowed
  | HTTPGatewayTimeout
  | HTTPServiceUnavailable
  | HTTPNotImplemented
  | HTTPInternalServerError
  | Transport transport_error
  | AttributeError string
  | KeyError string
  | UnboundLocalError string
  | ZeroDivisionError
  | ValueError_negative_r
  | ValueError_no_identifier
  | ValueError_input_type CompoundIdentifierType
  | ValueError_output_types "CompoundIdentifierType list"
  | TypeError_reduce_empty
  | TypeError_missing_arguments "string list"
  | TypeError_unexpected_keyword string
  | TypeError_identifier_type CompoundIdentifierType CompoundIdentifierType
  | TypeError_agreement int "CompoundIdentifier list list"

text \<open>
  Attribute access \<^verbatim>\<open>CompoundIdentifierType.<name>\<close>: a name that is no member raises
  AttributeError.
\<close>

definition getattr_CompoundIdentifierType :: "string \<Rightarrow> exn + CompoundIdentifierType" where
  "getattr_CompoundIdentifierType name =
     (case map_of members name of
        None \<Rightarrow> Inl (AttributeError name)
      | Some m \<Rightarrow> Inr m)"

text \<open>
  \<^verbatim>\<open>CompoundIdentifier.__eq__\<close>:
  \<^verbatim>\<open>
  if not other.identifier_type == self.identifier_type:
      raise TypeError(...)
  return self.value == other.value
  \<close>
\<close>

definition CompoundIdentifier_eq :: "CompoundIdentifier \<Rightarrow> CompoundIdentifier \<Rightarrow> exn + bool" where
  "CompoundIdentifier_eq self other =
     (if \<not> (identifier_type other = identifier_type self)
      then Inl (TypeError_identifier_type (identifier_type other) (identifier_type self))
      else Inr (value' self = value' other))"

section \<open>Translation tables of the PubChem adapter (pura/services/pubchem.py)\<close>

text \<open>
  A dict display whose keys are written \<^verbatim>\<open>CompoundIdentifierType.<name>\<close> evaluates its
  keys from left to right; the first name that is no member of the enumeration raises.
  The display is given by the member names as the source writes them.
\<close>

fun dict_display :: "(string \<times> string) list \<Rightarrow> exn + (CompoundIdentifierType \<times> string) list" where
  "dict_display [] = Inr []"
| "dict_display ((name, v) # rest) =
     (case getattr_CompoundIdentifierType name of
        Inl e \<Rightarrow> Inl e
      | Inr k \<Rightarrow> (case dict_display rest of
                    Inl e \<Rightarrow> Inl e
                  | Inr d \<Rightarrow> Inr ((k, v) # d)))"

definition INPUT_IDENTIFIER_MAP_display :: "(string \<times> string) list" where
  "INPUT_IDENTIFIER_MAP_display =
     [(''SMILES'', ''smiles''), (''INCHI'', ''InChI''), (''IUPAC_NAME'', ''IUPACName''),
      (''INCHI_KEY'', ''InChIKey''), (''NAME'', ''name''), (''PUBCHEM_CID'', ''cid'')]"

definition OUTPUT_IDENTIFIER_MAP_display :: "(string \<times> string) list" where
  "OUTPUT_IDENTIFIER_MAP_display =
     [(''SMILES'', ''CanonicalSMILES''), (''INCHI'', ''InChI''),
      (''IUPAC_NAME'', ''IUPACName''), (''INCHI_KEY'', ''InChIKey''),
      (''TITLE'', ''Title''), (''PUBCHEM_CID'', ''CID''),
      (''ISOMERIC_SMILES'', ''IsomericSMILES'')]"

definition INPUT_IDENTIFIER_MAP :: "exn + (CompoundIdentifierType \<times> string) list" where
  "INPUT_IDENTIFIER_MAP = dict_display INPUT_IDENTIFIER_MAP_display"

definition OUTPUT_IDENTIFIER_MAP :: "exn + (CompoundIdentifierType \<times> string) list" where
  "OUTPUT_IDENTIFIER_MAP = dict_display OUTPUT_IDENTIFIER_MAP_display"

section \<open>The agreement algorithm (pura/resolvers.py, reduce_options)\<close>

text \<open>
  \<^verbatim>\<open>itertools.combinations(iterable, r)\<close> for \<open>r \<ge> 0\<close>: the length-\<open>r\<close> subsequences of
  the input, emitted in lexicographic order of the positions they take.
\<close>

fun combinations :: "'a list \<Rightarrow> nat \<Rightarrow> 'a list list" where
  "combinations xs 0 = [[]]"
| "combinations [] (Suc r) = []"
| "combinations (x # xs) (Suc r) = map ((#) x) (combinations xs r) @ combinations xs (Suc r)"

text \<open>
  A Python \<^verbatim>\<open>set\<close> is modelled by a list without repetition. Python leaves the iteration
  order of a set open, so of a list that stands for a set only the elements (its
  \<open>set\<close>) and the absence of repetition are meaningful.
\<close>

definition pyset :: "'a list \<Rightarrow> 'a list" where
  "pyset xs = remdups xs"

definition intersection :: "'a list \<Rightarrow> 'a list \<Rightarrow> 'a list" where
  "intersection a b = filter (\<lambda>x. x \<in> set b) a"

text \<open>
  \<^verbatim>\<open>functools.reduce(f, seq)\<close> with no initial value: TypeError on an empty sequence.
\<close>

fun reduce :: "('a \<Rightarrow> 'a \<Rightarrow> 'a) \<Rightarrow> 'a list \<Rightarrow> exn + 'a" where
  "reduce f [] = Inl TypeError_reduce_empty"
| "reduce f (x # xs) = Inr (foldl f x xs)"

text \<open>
  The first loop of \<^verbatim>\<open>reduce_options\<close>, one step per list of \<^verbatim>\<open>identifiers_list\<close>:
  \<^verbatim>\<open>
  if len(identifiers) > 0:
      identifiers_list_new.append([identifier.value for identifier in identifiers])
      identifier_type = identifiers[0].identifier_type
  \<close>
  The state is \<^verbatim>\<open>identifiers_list_new\<close> and \<^verbatim>\<open>identifier_type\<close> (None while unbound).
\<close>

definition collect_step ::
  "CompoundIdentifier list \<Rightarrow> string list list \<times> CompoundIdentifierType option
     \<Rightarrow> string list list \<times> CompoundIdentifierType option" where
  "collect_step identifiers st =
     (case identifiers of
        [] \<Rightarrow> st
      | first # _ \<Rightarrow> (fst st @ [map value' identifiers], Some (identifier_type first)))"

text \<open>
  The second loop, over the combinations still to come, with the current value of
  \<^verbatim>\<open>intersection\<close>:
  \<^verbatim>\<open>
  for combo in combinations(options, agreement):
      intersection = reduce(set.intersection, [identifiers_sets[combo_i] for combo_i in combo])
      if len(intersection) > 0:
          break
  \<close>
\<close>

fun combo_loop :: "string list list \<Rightarrow> nat list list \<Rightarrow> string list \<Rightarrow> exn + string list" where
  "combo_loop identifiers_sets [] isect = Inr isect"
| "combo_loop identifiers_sets (combo # rest) isect =
     (case reduce intersection (map (\<lambda>combo_i. identifiers_sets ! combo_i) combo) of
        Inl e \<Rightarrow> Inl e
      | Inr isect' \<Rightarrow>
          if length isect' > 0 then Inr isect'
          else combo_loop identifiers_sets rest isect')"

text \<open>
  \<^verbatim>\<open>CompoundResolver.reduce_options(identifiers_list, agreement)\<close>. A negative
  \<^verbatim>\<open>agreement\<close> makes \<^verbatim>\<open>combinations\<close> raise ValueError; \<^verbatim>\<open>agreement = 0\<close> gives the one
  empty combination, on which \<^verbatim>\<open>reduce\<close> raises TypeError.
\<close>

definition reduce_options :: "CompoundIdentifier list list \<Rightarrow> int \<Rightarrow> exn + CompoundIdentifier list" where
  "reduce_options identifiers_list agreement =
     (let (identifiers_list_new, identifier_type) = fold collect_step identifiers_list ([], None);
          identifiers_sets = map pyset identifiers_list_new;
          options = [0 ..< length identifiers_list_new]
      in if agreement < 0 then Inl ValueError_negative_r
         else
           (case combo_loop identifiers_sets (combinations options (nat agreement)) [] of
              Inl e \<Rightarrow> Inl e
            | Inr isect \<Rightarrow>
                if length isect = 0 then Inr []
                else
                  (case identifier_type of
                     None \<Rightarrow> Inl (UnboundLocalError ''identifier_type'')
                   | Some t \<Rightarrow>
                       Inr (map (\<lambda>identifier.
                              \<lparr>identifier_type = t, value' = identifier, details = None\<rparr>) isect))))"

subsection \<open>The agreement function as the specification words it\<close>

text \<open>
  Discard the empty lists; turn each retained list into the set of its value strings;
  go through the size-\<open>k\<close> index subsets in lexicographic order; return the first
  non-empty intersection, wrapped as identifiers of a witnessed kind. The kind is a
  parameter: the specification takes it from the first non-empty list, the code from
  the last.
\<close>

definition retained :: "CompoundIdentifier list list \<Rightarrow> CompoundIdentifier list list" where
  "retained L = filter (\<lambda>l. l \<noteq> []) L"

definition value_sets :: "CompoundIdentifier list list \<Rightarrow> string list list" where
  "value_sets L = map (\<lambda>l. pyset (map value' l)) (retained L)"

definition intersect_all :: "string list list \<Rightarrow> nat list \<Rightarrow> string list" where
  "intersect_all sets c = foldl intersection (sets ! hd c) (map (\<lambda>i. sets ! i) (tl c))"

definition first_witnessed_kind :: "CompoundIdentifier list list \<Rightarrow> CompoundIdentifierType" where
  "first_witnessed_kind L = identifier_type (hd (hd (retained L)))"

definition last_witnessed_kind :: "CompoundIdentifier list list \<Rightarrow> CompoundIdentifierType" where
  "last_witnessed_kind L = identifier_type (hd (last (retained L)))"

definition agree ::
  "(CompoundIdentifier list list \<Rightarrow> CompoundIdentifierType)
     \<Rightarrow> CompoundIdentifier list list \<Rightarrow> nat \<Rightarrow> CompoundIdentifier list" where
  "agree kind L k =
     (case find (\<lambda>c. intersect_all (value_sets L) c \<noteq> [])
             (combinations [0 ..< length (retained L)] k) of
        None \<Rightarrow> []
      | Some c \<Rightarrow>
          map (\<lambda>v. \<lparr>identifier_type = kind L, value' = v, details = None\<rparr>)
            (intersect_all (value_sets L) c))"

text \<open>Lexicographic order on index lists.\<close>

definition lex_less :: "nat list \<Rightarrow> nat list \<Rightarrow> bool" where
  "lex_less c d = ((c, d) \<in> lexord {(i, j). i < j})"

section \<open>The resolver (pura/resolvers.py)\<close>

text \<open>
  The two \<^verbatim>\<open>except\<close> clauses of \<^verbatim>\<open>resolve_one_identifier\<close>, as predicates on the
  exception raised. \<^verbatim>\<open>except aiohttp_errors\<close> matches the classes of the tuple: of the
  web exceptions only HTTPServiceUnavailable, and every client-side exception.
  \<^verbatim>\<open>except (HTTPClientError, HTTPServerError)\<close> matches every 4xx and 5xx web exception.
\<close>

fun aiohttp_errors :: "exn \<Rightarrow> bool" where
  "aiohttp_errors HTTPServiceUnavailable = True"
| "aiohttp_errors (Transport t) = True"
| "aiohttp_errors e = False"

fun http_client_or_server_error :: "exn \<Rightarrow> bool" where
  "http_client_or_server_error HTTPBadRequest = True"
| "http_client_or_server_error HTTPNotFound = True"
| "http_client_or_server_error HTTPMethodNotAllowed = True"
| "http_client_or_server_error HTTPGatewayTimeout = True"
| "http_client_or_server_error HTTPServiceUnavailable = True"
| "http_client_or_server_error HTTPNotImplemented = True"
| "http_client_or_server_error HTTPInternalServerError = True"
| "http_client_or_server_error e = False"

text \<open>
  A service, \<^verbatim>\<open>service.resolve_compound(session, input_identifier, output_identifier_type)\<close>:
  what the call returns or raises for an input, the requested kinds and the number of
  the attempt (calls of one service for one input are numbered from 0, so a service
  may answer differently when it is asked again). The lists returned hold identifiers
  only; the test \<^verbatim>\<open>identifier is not None\<close> of the caller is then always true.
\<close>

datatype outcome = Returns "CompoundIdentifier list" | Raises exn

type_synonym service = "CompoundIdentifier \<Rightarrow> CompoundIdentifierType list \<Rightarrow> nat \<Rightarrow> outcome"

text \<open>
  What one resolution does besides returning: the calls of the services (service
  index, attempt, outcome), the sleeps (seconds) and the records logged at ERROR.
\<close>

datatype log_record =
    LogException exn
  | LogNotSufficientAgreement int "CompoundIdentifier list list"

datatype event =
    Called nat nat outcome
  | Slept nat
  | Logged log_record

text \<open>
  The retry loop
  \<^verbatim>\<open>
  for j in range(n_retries):
      try:
          resolved_identifiers = await service.resolve_compound(...)
          for identifier in resolved_identifiers:
              if identifier is not None:
                  standardize_identifier(identifier)
          resolved_identifiers_list.append(resolved_identifiers)
          break
      except aiohttp_errors:
          await asyncio.sleep(2**j)
      except (HTTPClientError, HTTPServerError) as e:
          ...
  \<close>
  over the attempts still to make. It ends with the list appended, with the attempts
  used up, or with an exception the first clause does not catch.
  \<^verbatim>\<open>standardize_identifier\<close> is imported from pura.compound, which does not define it;
  its result is not used, so what it does to the identifier it is given is the
  parameter \<open>standardize\<close> (the identity for a function that changes nothing).
\<close>

datatype attempts = Appended "CompoundIdentifier list" | Exhausted | Failed exn

fun retry_loop ::
  "(CompoundIdentifier \<Rightarrow> CompoundIdentifier) \<Rightarrow> service \<Rightarrow> nat \<Rightarrow> CompoundIdentifier
     \<Rightarrow> CompoundIdentifierType list \<Rightarrow> nat list \<Rightarrow> attempts \<times> event list" where
  "retry_loop standardize service i input_identifier output_identifier_type [] = (Exhausted, [])"
| "retry_loop standardize service i input_identifier output_identifier_type (j # js) =
     (case service input_identifier output_identifier_type j of
        Returns resolved_identifiers \<Rightarrow>
          (Appended (map standardize resolved_identifiers),
           [Called i j (Returns resolved_identifiers)])
      | Raises e \<Rightarrow>
          if aiohttp_errors e then
            (case retry_loop standardize service i input_identifier output_identifier_type js of
               (r, evs) \<Rightarrow> (r, Called i j (Raises e) # Slept (2 ^ j) # evs))
          else (Failed e, [Called i j (Raises e)]))"

text \<open>
  The local variables of \<^verbatim>\<open>resolve_one_identifier\<close>; \<^verbatim>\<open>resolved_identifiers\<close> is None
  while unbound.
\<close>

record resolve_state =
  agreement_count :: int
  resolved_identifiers_list :: "CompoundIdentifier list list"
  resolved_identifiers :: "CompoundIdentifier list option"

text \<open>
  The agreement check after the retry loop of service \<open>i\<close>:
  \<^verbatim>\<open>
  if i > 0 and len(resolved_identifiers_list) > 0:
      resolved_identifiers = self.reduce_options(resolved_identifiers_list, agreement)
      agreement_count += 1
  elif len(resolved_identifiers_list) > 0:
      agreement_count += 1
  \<close>
\<close>

definition check_agreement :: "nat \<Rightarrow> int \<Rightarrow> resolve_state \<Rightarrow> exn + resolve_state" where
  "check_agreement i agreement st =
     (if i > 0 \<and> length (resolved_identifiers_list st) > 0 then
        (case reduce_options (resolved_identifiers_list st) agreement of
           Inl e \<Rightarrow> Inl e
         | Inr r \<Rightarrow>
             Inr (st\<lparr>resolved_identifiers := Some r, agreement_count := agreement_count st + 1\<rparr>))
      else if length (resolved_identifiers_list st) > 0 then
        Inr (st\<lparr>agreement_count := agreement_count st + 1\<rparr>)
      else Inr st)"

text \<open>
  The result of a resolution: an exception, or the value returned (\<open>None\<close> for a bare
  \<^verbatim>\<open>return\<close>).
\<close>

type_synonym resolution = "exn + CompoundIdentifier list option"

text \<open>
  The code after the loop over the services:
  \<^verbatim>\<open>
  if agreement_count < agreement:
      error_txt = f"Not sufficient agreeement ({agreement_count}) for {resolved_identifiers_list}"
      if self.silent:
          logger.error(error_txt)
          return
      else:
          raise TypeError(error_txt)
  return resolved_identifiers
  \<close>
\<close>

definition after_services :: "bool \<Rightarrow> int \<Rightarrow> resolve_state \<Rightarrow> resolution \<times> event list" where
  "after_services silent agreement st =
     (if agreement_count st < agreement then
        (if silent then
           (Inr None,
            [Logged (LogNotSufficientAgreement (agreement_count st) (resolved_identifiers_list st))])
         else
           (Inl (TypeError_agreement (agreement_count st) (resolved_identifiers_list st)), []))
      else
        (case resolved_identifiers st of
           None \<Rightarrow> (Inl (UnboundLocalError ''resolved_identifiers''), [])
         | Some r \<Rightarrow> (Inr (Some r), [])))"

text \<open>
  The loop over \<^verbatim>\<open>enumerate(self._services)\<close>. It ends early with a result (an exception
  that propagates, or the \<^verbatim>\<open>return\<close> of silent mode), or it is left, by \<^verbatim>\<open>break\<close> or at
  its end, with the state the code after it reads.
\<close>

datatype loop_exit = Early resolution | Left resolve_state

fun service_loop ::
  "bool \<Rightarrow> (CompoundIdentifier \<Rightarrow> CompoundIdentifier) \<Rightarrow> CompoundIdentifier
     \<Rightarrow> CompoundIdentifierType list \<Rightarrow> int \<Rightarrow> nat \<Rightarrow> (nat \<times> service) list \<Rightarrow> resolve_state
     \<Rightarrow> loop_exit \<times> event list" where
  "service_loop silent standardize input_identifier output_identifier_type agreement n_retries
     [] st = (Left st, [])"
| "service_loop silent standardize input_identifier output_identifier_type agreement n_retries
     ((i, service) # rest) st =
     (case retry_loop standardize service i input_identifier output_identifier_type
             [0 ..< n_retries] of
        (Failed e, evs) \<Rightarrow>
          if http_client_or_server_error e then
            (if silent then (Early (Inr None), evs @ [Logged (LogException e)])
             else (Early (Inl e), evs))
          else (Early (Inl e), evs)
      | (r, evs) \<Rightarrow>
          (let st1 = (case r of
                        Appended ids \<Rightarrow>
                          st\<lparr>resolved_identifiers_list := resolved_identifiers_list st @ [ids],
                             resolved_identifiers := Some ids\<rparr>
                      | _ \<Rightarrow> st)
           in case check_agreement i agreement st1 of
                Inl e \<Rightarrow> (Early (Inl e), evs)
              | Inr st2 \<Rightarrow>
                  if agreement_count st2 \<ge> agreement then (Left st2, evs)
                  else
                    (case service_loop silent standardize input_identifier
                            output_identifier_type agreement n_retries rest st2 of
                       (ex, evs') \<Rightarrow> (ex, evs @ evs'))))"

definition enumerate :: "'a list \<Rightarrow> (nat \<times> 'a) list" where
  "enumerate xs = zip [0 ..< length xs] xs"

definition resolve_one_identifier ::
  "bool \<Rightarrow> (CompoundIdentifier \<Rightarrow> CompoundIdentifier) \<Rightarrow> service list \<Rightarrow> CompoundIdentifier
     \<Rightarrow> CompoundIdentifierType list \<Rightarrow> int \<Rightarrow> nat \<Rightarrow> resolution \<times> event list" where
  "resolve_one_identifier silent standardize services input_identifier output_identifier_type
     agreement n_retries =
     (case service_loop silent standardize input_identifier output_identifier_type agreement
             n_retries (enumerate services)
             \<lparr>agreement_count = 0, resolved_identifiers_list = [], resolved_identifiers = None\<rparr> of
        (Early res, evs) \<Rightarrow> (res, evs)
      | (Left st, evs) \<Rightarrow>
          (case after_services silent agreement st of
             (res, evs') \<Rightarrow> (res, evs @ evs')))"

subsection \<open>Batching and result assembly\<close>

text \<open>
  \<^verbatim>\<open>asyncio.as_completed(tasks)\<close> yields the tasks in the order in which they complete.
  That order is not fixed by the program; it is the parameter \<open>order\<close>, the positions
  of the tasks in completion order (a permutation of the positions of the batch).
\<close>

definition as_completed :: "nat list \<Rightarrow> 'a list \<Rightarrow> 'a list" where
  "as_completed order tasks = map (\<lambda>i. tasks ! i) order"

text \<open>
  \<^verbatim>\<open>[await f for f in batch_bar]\<close>: the results in the order awaited; the first task that
  raised makes the comprehension raise.
\<close>

fun await_all :: "(exn + 'a) list \<Rightarrow> exn + 'a list" where
  "await_all [] = Inr []"
| "await_all (Inl e # rest) = Inl e"
| "await_all (Inr r # rest) =
     (case await_all rest of Inl e \<Rightarrow> Inl e | Inr rs \<Rightarrow> Inr (r # rs))"

text \<open>
  The task \<^verbatim>\<open>_resolve\<close> creates for one input: \<^verbatim>\<open>resolve_one_identifier\<close> with
  \<^verbatim>\<open>n_retries=7\<close>.
\<close>

definition resolve_task ::
  "bool \<Rightarrow> (CompoundIdentifier \<Rightarrow> CompoundIdentifier) \<Rightarrow> service list \<Rightarrow> CompoundIdentifierType list
     \<Rightarrow> int \<Rightarrow> CompoundIdentifier \<Rightarrow> resolution \<times> event list" where
  "resolve_task silent standardize services output_identifier_type agreement compound_identifier =
     resolve_one_identifier silent standardize services compound_identifier
       output_identifier_type agreement 7"

text \<open>
  The loop over the batches, with the list \<^verbatim>\<open>resolved_identifiers\<close> built so far.
  \<open>sched batch\<close> is the completion order of the tasks of that batch.
\<close>

fun batch_loop ::
  "(CompoundIdentifier \<Rightarrow> resolution) \<Rightarrow> (nat \<Rightarrow> nat list) \<Rightarrow> CompoundIdentifier list \<Rightarrow> int
     \<Rightarrow> nat list \<Rightarrow> CompoundIdentifier list option list
     \<Rightarrow> exn + CompoundIdentifier list option list" where
  "batch_loop task sched input_identifiers batch_size [] resolved = Inr resolved"
| "batch_loop task sched input_identifiers batch_size (batch # batches) resolved =
     (let start = int batch * batch_size;
          batch_identifiers = take (nat batch_size) (drop (nat start) input_identifiers);
          tasks = map task batch_identifiers
      in case await_all (as_completed (sched batch) tasks) of
           Inl e \<Rightarrow> Inl e
         | Inr rs \<Rightarrow> batch_loop task sched input_identifiers batch_size batches (resolved @ rs))"

text \<open>
  \<^verbatim>\<open>CompoundResolver._resolve\<close>, written \<open>resolve_async\<close>. Python's \<^verbatim>\<open>//\<close> and \<^verbatim>\<open>%\<close> on
  integers are \<open>div\<close> and \<open>mod\<close> on \<open>int\<close>, except that a zero divisor raises.
\<close>

definition resolve_async ::
  "bool \<Rightarrow> (CompoundIdentifier \<Rightarrow> CompoundIdentifier) \<Rightarrow> service list \<Rightarrow> (nat \<Rightarrow> nat list)
     \<Rightarrow> CompoundIdentifier list \<Rightarrow> CompoundIdentifierType list \<Rightarrow> int \<Rightarrow> int option
     \<Rightarrow> exn + CompoundIdentifier list option list" where
  "resolve_async silent standardize services sched input_identifiers output_identifier_type
     agreement batch_size_arg =
     (let n_identifiers = int (length input_identifiers);
          batch_size = (case batch_size_arg of
                          None \<Rightarrow> if n_identifiers \<ge> 100 then 100 else n_identifiers
                        | Some b \<Rightarrow> b)
      in if batch_size = 0 then Inl ZeroDivisionError
         else
           (let n_batches = n_identifiers div batch_size
                              + (if n_identifiers mod batch_size = 0 then 0 else 1)
            in batch_loop
                 (\<lambda>x. fst (resolve_task silent standardize services output_identifier_type
                             agreement x))
                 sched input_identifiers batch_size [0 ..< nat n_batches] []))"

text \<open>
  \<^verbatim>\<open>CompoundResolver.resolve\<close> runs \<^verbatim>\<open>_resolve\<close> to completion on the event loop and
  returns its result.
\<close>

definition resolve ::
  "bool \<Rightarrow> (CompoundIdentifier \<Rightarrow> CompoundIdentifier) \<Rightarrow> service list \<Rightarrow> (nat \<Rightarrow> nat list)
     \<Rightarrow> CompoundIdentifier list \<Rightarrow> CompoundIdentifierType list \<Rightarrow> int \<Rightarrow> int option
     \<Rightarrow> exn + CompoundIdentifier list option list" where
  "resolve silent standardize services sched input_identifiers output_identifier_type
     agreement batch_size =
     resolve_async silent standardize services sched input_identifiers output_identifier_type
       agreement batch_size"

section \<open>The PubChem adapter (pura/services/pubchem.py)\<close>

text \<open>
  A JSON value of a property row (a string or an integer), its truth value and its
  \<^verbatim>\<open>str()\<close>.
\<close>

datatype json_value = JString string | JNumber int

fun truthy :: "json_value \<Rightarrow> bool" where
  "truthy (JString s) = (s \<noteq> [])"
| "truthy (JNumber i) = (i \<noteq> 0)"

function str_nat :: "nat \<Rightarrow> string" where
  "str_nat n =
     (if n < 10 then [char_of (48 + n)]
      else str_nat (n div 10) @ [char_of (48 + n mod 10)])"
  by pat_completeness auto
termination
  by (relation "measure id") auto

fun py_str :: "json_value \<Rightarrow> string" where
  "py_str (JString s) = s"
| "py_str (JNumber i) = (if i < 0 then CHR ''-'' # str_nat (nat (- i)) else str_nat (nat i))"

text \<open>
  The JSON object a request is answered with:
  \<^verbatim>\<open>{"Fault": {"Code": code}}\<close>, \<^verbatim>\<open>{"PropertyTable": {"Properties": rows}}\<close>,
  \<^verbatim>\<open>{"dictionary_terms": {"compound": names}}\<close>, or an object with none of these keys.
\<close>

datatype response =
    Fault string
  | PropertyTable "(string \<times> json_value) list list"
  | DictionaryTerms "string list"
  | OtherObject

text \<open>
  What \<^verbatim>\<open>request\<close> posts: the URL path it assembled, the query parameters (kept as a
  list, not encoded into the URL) and the form data. A session answers a request with
  an exception of the transport or with the JSON object of the response.
\<close>

record http_request =
  apiurl :: string
  query :: "(string \<times> int) list"
  postdata :: "(string option \<times> string) list"

type_synonym session = "http_request \<Rightarrow> exn + response"

definition API_BASE :: string where
  "API_BASE = ''https://pubchem.ncbi.nlm.nih.gov/rest/pug''"

definition AUTOCOMPLETE_BASE :: string where
  "AUTOCOMPLETE_BASE = ''https://pubchem.ncbi.nlm.nih.gov/rest/autocomplete''"

definition PROPERTY_MAP :: "(string \<times> string) list" where
  "PROPERTY_MAP =
     [
      (''molecular_formula'', ''MolecularFormula''),
      (''molecular_weight'', ''MolecularWeight''),
      (''canonical_smiles'', ''CanonicalSMILES''),
      (''isomeric_smiles'', ''IsomericSMILES''), (''inchi'', ''InChI''),
      (''inchikey'', ''InChIKey''), (''iupac_name'', ''IUPACName''),
      (''xlogp'', ''XLogP''), (''exact_mass'', ''ExactMass''),
      (''monoisotopic_mass'', ''MonoisotopicMass''), (''tpsa'', ''TPSA''),
      (''complexity'', ''Complexity''), (''charge'', ''Charge''),
      (''h_bond_donor_count'', ''HBondDonorCount''),
      (''h_bond_acceptor_count'', ''HBondAcceptorCount''),
      (''rotatable_bond_count'', ''RotatableBondCount''),
      (''heavy_atom_count'', ''HeavyAtomCount''),
      (''isotope_atom_count'', ''IsotopeAtomCount''),
      (''atom_stereo_count'', ''AtomStereoCount''),
      (''defined_atom_stereo_count'', ''DefinedAtomStereoCount''),
      (''undefined_atom_stereo_count'', ''UndefinedAtomStereoCount''),
      (''bond_stereo_count'', ''BondStereoCount''),
      (''defined_bond_stereo_count'', ''DefinedBondStereoCount''),
      (''undefined_bond_stereo_count'', ''UndefinedBondStereoCount''),
      (''covalent_unit_count'', ''CovalentUnitCount''), (''volume_3d'', ''Volume3D''),
      (''conformer_rmsd_3d'', ''ConformerModelRMSD3D''),
      (''conformer_model_rmsd_3d'', ''ConformerModelRMSD3D''),
      (''x_steric_quadrupole_3d'', ''XStericQuadrupole3D''),
      (''y_steric_quadrupole_3d'', ''YStericQuadrupole3D''),
      (''z_steric_quadrupole_3d'', ''ZStericQuadrupole3D''),
      (''feature_count_3d'', ''FeatureCount3D''),
      (''feature_acceptor_count_3d'', ''FeatureAcceptorCount3D''),
      (''feature_donor_count_3d'', ''FeatureDonorCount3D''),
      (''feature_anion_count_3d'', ''FeatureAnionCount3D''),
      (''feature_cation_count_3d'', ''FeatureCationCount3D''),
      (''feature_ring_count_3d'', ''FeatureRingCount3D''),
      (''feature_hydrophobe_count_3d'', ''FeatureHydrophobeCount3D''),
      (''effective_rotor_count_3d'', ''EffectiveRotorCount3D''),
      (''conformer_count_3d'', ''ConformerCount3D'')]"

text \<open>\<^verbatim>\<open>sep.join(parts)\<close>.\<close>

fun join :: "string \<Rightarrow> string list \<Rightarrow> string" where
  "join sep [] = []"
| "join sep [p] = p"
| "join sep (p # q # ps) = p @ sep @ join sep (q # ps)"

text \<open>
  The chain on the fault code at the end of \<^verbatim>\<open>request\<close>: the exception raised for a
  code, None for a code the chain does not list (the response is then returned).
  \<^verbatim>\<open>
  if code == "PUGREST.BadRequest":      raise HTTPBadRequest(reason=code)
  elif code == "PUGREST.NotFound":      raise HTTPNotFound(reason=code)
  elif code == "PUGREST.NotAllowed":    raise HTTPMethodNotAllowed(reason=code)
  elif code == "PUGREST.Timeout":       raise HTTPGatewayTimeout(reason=code)
  elif code == "PUGREST.ServerBusy":    raise HTTPServiceUnavailable(reason=code)
  elif code == "PUGREST.Unimplemented": raise HTTPNotImplemented(reason=code)
  elif code == "PUGREST.ServerError" or code == "PUGREST.Unknown":
      raise HTTPInternalServerError()
  \<close>
  \<^verbatim>\<open>HTTPMethodNotAllowed(reason=code)\<close> does not construct an exception: the constructor
  of that class requires the arguments \<^verbatim>\<open>method\<close> and \<^verbatim>\<open>allowed_methods\<close>, so the call
  itself raises TypeError, and that is what the branch for NotAllowed raises. The other
  constructors take \<^verbatim>\<open>reason\<close> alone or nothing, as they are called.
\<close>

definition fault_exception :: "string \<Rightarrow> exn option" where
  "fault_exception code =
     (if code = ''PUGREST.BadRequest'' then Some HTTPBadRequest
      else if code = ''PUGREST.NotFound'' then Some HTTPNotFound
      else if code = ''PUGREST.NotAllowed''
        then Some (TypeError_missing_arguments [''method'', ''allowed_methods''])
      else if code = ''PUGREST.Timeout'' then Some HTTPGatewayTimeout
      else if code = ''PUGREST.ServerBusy'' then Some HTTPServiceUnavailable
      else if code = ''PUGREST.Unimplemented'' then Some HTTPNotImplemented
      else if code = ''PUGREST.ServerError'' \<or> code = ''PUGREST.Unknown''
        then Some HTTPInternalServerError
      else None)"

text \<open>
  \<^verbatim>\<open>request(session, api_base, identifier, namespace, domain, operation, output="JSON",
  searchtype=None, **kwargs)\<close> for a string identifier, with \<^verbatim>\<open>searchtype=None\<close> and
  \<^verbatim>\<open>output="JSON"\<close> as both callers pass them. \<^verbatim>\<open>filter(None, ...)\<close> drops the
  components that are None or empty. The percent-encoding of \<^verbatim>\<open>urlid\<close> is left out.
\<close>

definition request ::
  "session \<Rightarrow> string \<Rightarrow> string \<Rightarrow> string option \<Rightarrow> string \<Rightarrow> string option
     \<Rightarrow> (string \<times> int) list \<Rightarrow> exn + response" where
  "request session api_base identifier namespace domain operation kwargs =
     (if identifier = [] then Inl ValueError_no_identifier
      else
        (let identifier1 =
               (if namespace = Some ''sourceid''
                then map (\<lambda>c. if c = CHR ''/'' then CHR ''.'' else c) identifier
                else identifier);
             by_url = (namespace \<in> {Some ''listkey'', Some ''formula'', Some ''sourceid''}
                        \<or> domain = ''sources'');
             urlid = (if by_url then Some identifier1 else None);
             data = (if by_url then [] else [(namespace, identifier1)]);
             comps = filter (\<lambda>c. c \<noteq> [])
                       (concat (map (\<lambda>c. case c of None \<Rightarrow> [] | Some v \<Rightarrow> [v])
                          [Some api_base, Some domain, None, namespace, urlid, operation,
                           Some ''JSON'']))
         in case session \<lparr>apiurl = join ''/'' comps, query = kwargs, postdata = data\<rparr> of
              Inl e \<Rightarrow> Inl e
            | Inr response \<Rightarrow>
                (case response of
                   Fault code \<Rightarrow>
                     (case fault_exception code of
                        Some e \<Rightarrow> Inl e
                      | None \<Rightarrow> Inr response)
                 | _ \<Rightarrow> Inr response)))"

text \<open>
  \<^verbatim>\<open>get_properties(session, properties, identifier, namespace, searchtype=None)\<close> for a
  list of property names: HTTPNotFound becomes the empty list;
  \<^verbatim>\<open>results["PropertyTable"]["Properties"]\<close> raises KeyError on any other object.
\<close>

definition get_properties ::
  "session \<Rightarrow> string list \<Rightarrow> string \<Rightarrow> string
     \<Rightarrow> exn + (string \<times> json_value) list list" where
  "get_properties session properties identifier namespace =
     (let joined = join '','' (map (\<lambda>p. case map_of PROPERTY_MAP p of
                                          None \<Rightarrow> p | Some q \<Rightarrow> q) properties);
          operation = ''property/'' @ joined
      in case request session API_BASE identifier (Some namespace) ''compound''
                (Some operation) [] of
           Inl e \<Rightarrow> (if e = HTTPNotFound then Inr [] else Inl e)
         | Inr results \<Rightarrow>
             (case results of
                PropertyTable rows \<Rightarrow> Inr rows
              | _ \<Rightarrow> Inl (KeyError ''PropertyTable'')))"

text \<open>
  \<^verbatim>\<open>autocomplete(session, identifier, lookup_dictionary="compound", limit=...)\<close>.
\<close>

definition autocomplete :: "session \<Rightarrow> string \<Rightarrow> int \<Rightarrow> exn + string list" where
  "autocomplete session identifier limit =
     (case request session AUTOCOMPLETE_BASE identifier None ''compound'' (Some identifier)
             [(''limit'', limit)] of
        Inl e \<Rightarrow> (if e = HTTPNotFound then Inr [] else Inl e)
      | Inr results \<Rightarrow>
          (case results of
             DictionaryTerms names \<Rightarrow> Inr names
           | _ \<Rightarrow> Inr []))"

text \<open>
  Modelled from the spec: \<^verbatim>\<open>inverse_map\<close> is imported from pura.utils, which is not among
  the sources; the specification says that the lookup from output property to
  identifier kind is the inverse of the forward map. A later entry of the forward map
  wins over an earlier one with the same value, as in a dict comprehension.
\<close>

definition inverse_map :: "('k \<times> 'v) list \<Rightarrow> ('v \<times> 'k) list" where
  "inverse_map m = rev (map (\<lambda>(k, v). (v, k)) m)"

text \<open>\<^verbatim>\<open>class PubChem(Service)\<close>: the two attributes set by \<^verbatim>\<open>__init__\<close>.\<close>

record PubChem =
  self_autocomplete :: bool
  self_autocomplete_limit :: int

text \<open>
  The loops that build \<^verbatim>\<open>output_identifiers\<close> from the rows of one property query:
  \<^verbatim>\<open>
  for representation in representations:
      for result in results:
          if result and result.get(representation):
              output_identifiers += [CompoundIdentifier(
                  identifier_type=inverse_map(OUTPUT_IDENTIFIER_MAP)[representation],
                  value=str(result[representation]))]
  \<close>
\<close>

fun output_of_rows ::
  "(CompoundIdentifierType \<times> string) list \<Rightarrow> string \<Rightarrow> (string \<times> json_value) list list
     \<Rightarrow> exn + CompoundIdentifier list" where
  "output_of_rows omap representation [] = Inr []"
| "output_of_rows omap representation (result # results) =
     (case map_of result representation of
        None \<Rightarrow> output_of_rows omap representation results
      | Some v \<Rightarrow>
          if result \<noteq> [] \<and> truthy v then
            (case map_of (inverse_map omap) representation of
               None \<Rightarrow> Inl (KeyError representation)
             | Some kind \<Rightarrow>
                 (case output_of_rows omap representation results of
                    Inl e \<Rightarrow> Inl e
                  | Inr ids \<Rightarrow>
                      Inr (\<lparr>identifier_type = kind, value' = py_str v, details = None\<rparr> # ids)))
          else output_of_rows omap representation results)"

fun output_of_representations ::
  "(CompoundIdentifierType \<times> string) list \<Rightarrow> string list \<Rightarrow> (string \<times> json_value) list list
     \<Rightarrow> exn + CompoundIdentifier list" where
  "output_of_representations omap [] results = Inr []"
| "output_of_representations omap (representation # representations) results =
     (case output_of_rows omap representation results of
        Inl e \<Rightarrow> Inl e
      | Inr ids \<Rightarrow>
          (case output_of_representations omap representations results of
             Inl e \<Rightarrow> Inl e
           | Inr ids' \<Rightarrow> Inr (ids @ ids')))"

text \<open>The calls of the two request helpers that one resolution makes, in order.\<close>

datatype pubchem_call = Get_properties string | Autocomplete string

text \<open>
  The search loop of \<^verbatim>\<open>resolve_compound\<close>:
  \<^verbatim>\<open>
  while not input_identifiers_queue.empty():
      input_value = input_identifiers_queue.get()
      results = await get_properties(...)
      output_identifiers = [] ...
      if len(output_identifiers) == 0 and self.autocomplete and not autocomplete_tried:
          names = await autocomplete(session, input_value, limit=self.autocomplete_limit)
          for name in names:
              input_identifiers_queue.put(name)
  return output_identifiers
  \<close>
  The loop need not end, so it runs on fuel, one unit per iteration, and is None when
  the fuel runs out. \<^verbatim>\<open>autocomplete_tried\<close> is a variable of the state; the loop never
  assigns it. \<^verbatim>\<open>output_identifiers\<close> is None while unbound.
\<close>

fun search_loop ::
  "nat \<Rightarrow> PubChem \<Rightarrow> (CompoundIdentifierType \<times> string) list \<Rightarrow> session \<Rightarrow> string list
     \<Rightarrow> string list \<Rightarrow> string \<Rightarrow> string list \<Rightarrow> bool \<Rightarrow> CompoundIdentifier list option
     \<Rightarrow> pubchem_call list \<Rightarrow> ((exn + CompoundIdentifier list) \<times> pubchem_call list) option" where
  "search_loop 0 self omap session properties representations namespace queue
     autocomplete_tried output_identifiers calls = None"
| "search_loop (Suc fuel) self omap session properties representations namespace []
     autocomplete_tried output_identifiers calls =
     Some (case output_identifiers of
             None \<Rightarrow> Inl (UnboundLocalError ''output_identifiers'')
           | Some ids \<Rightarrow> Inr ids,
           calls)"
| "search_loop (Suc fuel) self omap session properties representations namespace
     (input_value # queue) autocomplete_tried output_identifiers calls =
     (case get_properties session properties input_value namespace of
        Inl e \<Rightarrow> Some (Inl e, calls @ [Get_properties input_value])
      | Inr results \<Rightarrow>
          (case output_of_representations omap representations results of
             Inl e \<Rightarrow> Some (Inl e, calls @ [Get_properties input_value])
           | Inr ids \<Rightarrow>
               if length ids = 0 \<and> self_autocomplete self \<and> \<not> autocomplete_tried then
                 (case autocomplete session input_value (self_autocomplete_limit self) of
                    Inl e \<Rightarrow>
                      Some (Inl e, calls @ [Get_properties input_value, Autocomplete input_value])
                  | Inr names \<Rightarrow>
                      search_loop fuel self omap session properties representations namespace
                        (queue @ names) autocomplete_tried (Some ids)
                        (calls @ [Get_properties input_value, Autocomplete input_value]))
               else
                 search_loop fuel self omap session properties representations namespace
                   queue autocomplete_tried (Some ids)
                   (calls @ [Get_properties input_value])))"

text \<open>
  \<^verbatim>\<open>PubChem.resolve_compound(session, input_identifier, output_identifier_types)\<close>. The
  two translation tables are parameters (\<open>imap\<close>, \<open>omap\<close>): the output table of the
  module names kinds the enumeration lacks. \<^verbatim>\<open>list(set(representations))\<close> followed by
  the removal of None leaves the distinct property names; \<^verbatim>\<open>PROPERTY_EXCEPTIONS\<close> is the
  one-element list of the property name the output table gives for PUBCHEM_CID.
\<close>

definition resolve_compound ::
  "nat \<Rightarrow> PubChem \<Rightarrow> (CompoundIdentifierType \<times> string) list
     \<Rightarrow> (CompoundIdentifierType \<times> string) list \<Rightarrow> session \<Rightarrow> CompoundIdentifier
     \<Rightarrow> CompoundIdentifierType list
     \<Rightarrow> ((exn + CompoundIdentifier list) \<times> pubchem_call list) option" where
  "resolve_compound fuel self imap omap session input_identifier output_identifier_types =
     (case map_of imap (identifier_type input_identifier) of
        None \<Rightarrow> Some (Inl (ValueError_input_type (identifier_type input_identifier)), [])
      | Some namespace \<Rightarrow>
          (let representations =
                 concat (map (\<lambda>r. case r of None \<Rightarrow> [] | Some name \<Rightarrow> [name])
                           (pyset (map (map_of omap) output_identifier_types)));
               PROPERTY_EXCEPTIONS = [map_of omap PUBCHEM_CID]
           in if \<not> (\<exists>r \<in> set representations. r \<noteq> [])
              then Some (Inl (ValueError_output_types output_identifier_types), [])
              else
                (let properties =
                       filter (\<lambda>representation. Some representation \<notin> set PROPERTY_EXCEPTIONS)
                         representations
                 in search_loop fuel self omap session properties representations namespace
                      [value' input_identifier] False None [])))"

subsection \<open>The adapter as the resolver calls it\<close>

text \<open>
  A Python call binds the positional arguments to the first parameters and every
  keyword argument to the parameter of that name. A keyword that names no parameter
  raises TypeError; otherwise a parameter (none has a default here) that is left
  without an argument raises TypeError; otherwise the body runs.
\<close>

definition keyword_call :: "string list \<Rightarrow> nat \<Rightarrow> string list \<Rightarrow> outcome \<Rightarrow> outcome" where
  "keyword_call parameters n_positional keywords body =
     (case find (\<lambda>k. k \<notin> set parameters) keywords of
        Some k \<Rightarrow> Raises (TypeError_unexpected_keyword k)
      | None \<Rightarrow>
          (let missing = filter (\<lambda>p. p \<notin> set keywords) (drop n_positional parameters)
           in if missing \<noteq> [] then Raises (TypeError_missing_arguments missing) else body))"

text \<open>
  The call in \<^verbatim>\<open>resolve_one_identifier\<close>,
  \<^verbatim>\<open>service.resolve_compound(session, input_identifier=input_identifier,
  output_identifier_type=output_identifier_type)\<close>, of a method with the given parameters
  (after \<^verbatim>\<open>self\<close>) and the given outcome of its body.
\<close>

definition resolver_call :: "string list \<Rightarrow> outcome \<Rightarrow> outcome" where
  "resolver_call parameters body =
     keyword_call parameters 1 [''input_identifier'', ''output_identifier_type''] body"

text \<open>
  The parameters of \<^verbatim>\<open>PubChem.resolve_compound\<close> after \<^verbatim>\<open>self\<close>.
\<close>

definition PubChem_resolve_compound_parameters :: "string list" where
  "PubChem_resolve_compound_parameters =
     [''session'', ''input_identifier'', ''output_identifier_types'']"

text \<open>
  The tables a resolution is run with below: the input table as the module evaluates
  it, and the entries of the output table whose kind is a member of the enumeration.
\<close>

definition input_table :: "(CompoundIdentifierType \<times> string) list" where
  "input_table =
     [(SMILES, ''smiles''), (INCHI, ''InChI''), (IUPAC_NAME, ''IUPACName''),
      (INCHI_KEY, ''InChIKey''), (NAME, ''name''), (PUBCHEM_CID, ''cid'')]"

definition output_table :: "(CompoundIdentifierType \<times> string) list" where
  "output_table =
     [(SMILES, ''CanonicalSMILES''), (INCHI, ''InChI''), (IUPAC_NAME, ''IUPACName''),
      (INCHI_KEY, ''InChIKey''), (PUBCHEM_CID, ''CID'')]"

section \<open>Properties of the identifier model\<close>

lemma members_names:
  "map fst members =
     [''UNSPECIFIED'', ''CUSTOM'', ''SMILES'', ''INCHI'', ''MOLBLOCK'', ''IUPAC_NAME'',
      ''NAME'', ''CAS_NUMBER'', ''PUBCHEM_CID'', ''CHEMSPIDER_ID'', ''CXSMILES'',
      ''INCHI_KEY'', ''XYZ'', ''UNIPROT_ID'', ''PDB_ID'', ''AMINO_ACID_SEQUENCE'', ''HELM'']"
  by (simp add: members_def)

lemma members_values: "map (enum_value \<circ> snd) members = [0 ..< 17]"
  by (simp add: members_def upt_conv_Cons)

lemma INPUT_IDENTIFIER_MAP_eval: "INPUT_IDENTIFIER_MAP = Inr input_table"
  by (simp add: INPUT_IDENTIFIER_MAP_def INPUT_IDENTIFIER_MAP_display_def
      getattr_CompoundIdentifierType_def members_def input_table_def)

text \<open>
  C8. Equality of two compound identifiers returns true exactly when the kinds are
  identical and the value strings are identical, returns false exactly when the kinds
  are identical and the values differ, and raises (a TypeError naming both kinds)
  exactly when the kinds differ: a comparison across kinds never returns false.
\<close>

theorem CompoundIdentifier_eq_spec:
  "(CompoundIdentifier_eq a b = Inr True
      \<longleftrightarrow> identifier_type a = identifier_type b \<and> value' a = value' b)
   \<and> (CompoundIdentifier_eq a b = Inr False
      \<longleftrightarrow> identifier_type a = identifier_type b \<and> value' a \<noteq> value' b)
   \<and> (CompoundIdentifier_eq a b
        = Inl (TypeError_identifier_type (identifier_type b) (identifier_type a))
      \<longleftrightarrow> identifier_type a \<noteq> identifier_type b)
   \<and> ((\<exists>r. CompoundIdentifier_eq a b = Inr r) \<longleftrightarrow> identifier_type a = identifier_type b)"
  by (auto simp: CompoundIdentifier_eq_def)

text \<open>
  C9. The enumeration has seventeen members, with the values 0 to 16; TITLE and
  ISOMERIC_SMILES are not among them, so the output translation table of the PubChem
  adapter, which names both, raises AttributeError at its first such key (TITLE) when
  the module is loaded.
\<close>

theorem CompoundIdentifierType_lacks_TITLE:
  "length members = 17
   \<and> map (enum_value \<circ> snd) members = [0 ..< 17]
   \<and> getattr_CompoundIdentifierType ''TITLE'' = Inl (AttributeError ''TITLE'')
   \<and> getattr_CompoundIdentifierType ''ISOMERIC_SMILES'' = Inl (AttributeError ''ISOMERIC_SMILES'')
   \<and> OUTPUT_IDENTIFIER_MAP = Inl (AttributeError ''TITLE'')"
proof -
  have t: "getattr_CompoundIdentifierType ''TITLE'' = Inl (AttributeError ''TITLE'')"
    by (simp add: getattr_CompoundIdentifierType_def members_def)
  have i: "getattr_CompoundIdentifierType ''ISOMERIC_SMILES'' = Inl (AttributeError ''ISOMERIC_SMILES'')"
    by (simp add: getattr_CompoundIdentifierType_def members_def)
  have o: "OUTPUT_IDENTIFIER_MAP = Inl (AttributeError ''TITLE'')"
    by (simp add: OUTPUT_IDENTIFIER_MAP_def OUTPUT_IDENTIFIER_MAP_display_def
        getattr_CompoundIdentifierType_def members_def)
  have l: "length members = 17"
    by (simp add: members_def)
  from t i o l members_values show ?thesis by simp
qed

section \<open>Properties of the agreement algorithm\<close>

lemma fold_collect_step:
  "fold collect_step L (new, ty) =
     (new @ map (map value') (retained L),
      if retained L = [] then ty else Some (identifier_type (hd (last (retained L)))))"
proof (induction L arbitrary: new ty)
  case Nil
  then show ?case by (simp add: retained_def)
next
  case (Cons l L)
  show ?case
  proof (cases l)
    case Nil
    then show ?thesis using Cons.IH [of new ty] by (simp add: collect_step_def retained_def)
  next
    case (Cons a l')
    then show ?thesis
      using Cons.IH [of "new @ [map value' l]" "Some (identifier_type a)"]
      by (simp add: collect_step_def retained_def)
  qed
qed

lemma length_combinations: "c \<in> set (combinations xs r) \<Longrightarrow> length c = r"
  by (induction xs r arbitrary: c rule: combinations.induct) auto

lemma set_combinations:
  "sorted_wrt (<) (xs :: nat list) \<Longrightarrow>
     set (combinations xs r) = {c. length c = r \<and> sorted_wrt (<) c \<and> set c \<subseteq> set xs}"
proof (induction xs r rule: combinations.induct)
  case (1 xs)
  then show ?case by auto
next
  case (2 r)
  then show ?case by auto
next
  case (3 x xs r)
  from "3.prems" have sx: "sorted_wrt (<) xs" and lt: "\<forall>y\<in>set xs. x < y" by auto
  have ih1: "set (combinations xs r) = {c. length c = r \<and> sorted_wrt (<) c \<and> set c \<subseteq> set xs}"
    using "3.IH"(1) sx by simp
  have ih2: "set (combinations xs (Suc r)) = {c. length c = Suc r \<and> sorted_wrt (<) c \<and> set c \<subseteq> set xs}"
    using "3.IH"(2) sx by simp
  show ?case
  proof (intro set_eqI iffI)
    fix c assume "c \<in> set (combinations (x # xs) (Suc r))"
    then consider c' where "c = x # c'" "c' \<in> set (combinations xs r)"
      | "c \<in> set (combinations xs (Suc r))" by auto
    then show "c \<in> {c. length c = Suc r \<and> sorted_wrt (<) c \<and> set c \<subseteq> set (x # xs)}"
    proof cases
      case 1
      then show ?thesis using ih1 lt by auto
    next
      case 2
      then show ?thesis using ih2 by auto
    qed
  next
    fix c assume c: "c \<in> {c. length c = Suc r \<and> sorted_wrt (<) c \<and> set c \<subseteq> set (x # xs)}"
    then obtain y c' where cc: "c = y # c'" by (cases c) auto
    with c have len: "length c' = r" and sc: "sorted_wrt (<) c'" and gt: "\<forall>z\<in>set c'. y < z"
      and sub: "set c' \<subseteq> insert x (set xs)" and y: "y = x \<or> y \<in> set xs" by auto
    show "c \<in> set (combinations (x # xs) (Suc r))"
    proof (cases "y = x")
      case True
      have "set c' \<subseteq> set xs"
      proof
        fix z assume z: "z \<in> set c'"
        with gt True have "x < z" by simp
        moreover from sub z have "z = x \<or> z \<in> set xs" by auto
        ultimately show "z \<in> set xs" by auto
      qed
      with len sc have "c' \<in> set (combinations xs r)" using ih1 by simp
      with True cc show ?thesis by simp
    next
      case False
      with y have yin: "y \<in> set xs" by simp
      with lt have "x < y" by simp
      with gt have "\<forall>z\<in>set c'. x < z" by auto
      with sub have "set c' \<subseteq> set xs" by auto
      with yin len sc gt cc have "c \<in> set (combinations xs (Suc r))" using ih2 by simp
      then show ?thesis by simp
    qed
  qed
qed

lemma combinations_upt:
  "set (combinations [0 ..< n] k) = {c. length c = k \<and> sorted_wrt (<) c \<and> set c \<subseteq> {..< n}}"
  using set_combinations [of "[0 ..< n]" k] by (simp add: lessThan_atLeast0)

lemma combinations_lex_sorted:
  "sorted_wrt (<) (xs :: nat list) \<Longrightarrow> sorted_wrt lex_less (combinations xs r)"
proof (induction xs r rule: combinations.induct)
  case (1 xs)
  then show ?case by simp
next
  case (2 r)
  then show ?case by simp
next
  case (3 x xs r)
  from "3.prems" have sx: "sorted_wrt (<) xs" and lt: "\<forall>y\<in>set xs. x < y" by auto
  have a: "sorted_wrt lex_less (map ((#) x) (combinations xs r))"
    using "3.IH"(1) sx by (simp add: sorted_wrt_map lex_less_def)
  have b: "sorted_wrt lex_less (combinations xs (Suc r))"
    using "3.IH"(2) sx by simp
  have c: "lex_less (x # c') d"
    if "c' \<in> set (combinations xs r)" "d \<in> set (combinations xs (Suc r))" for c' d
  proof -
    from that(2) sx have "length d = Suc r" "set d \<subseteq> set xs"
      by (simp_all add: set_combinations)
    then obtain y d' where "d = y # d'" "y \<in> set xs" by (cases d) auto
    with lt show ?thesis by (simp add: lex_less_def)
  qed
  show ?case using a b c by (auto simp: sorted_wrt_append)
qed


lemma reduce_intersection:
  "c \<noteq> [] \<Longrightarrow> reduce intersection (map (\<lambda>i. sets ! i) c) = Inr (intersect_all sets c)"
  by (cases c) (simp_all add: intersect_all_def)

lemma combo_loop_find:
  "\<forall>c\<in>set combos. c \<noteq> [] \<Longrightarrow>
   combo_loop sets combos [] =
     Inr (case find (\<lambda>c. intersect_all sets c \<noteq> []) combos of
            None \<Rightarrow> [] | Some c \<Rightarrow> intersect_all sets c)"
proof (induction combos)
  case Nil
  then show ?case by simp
next
  case (Cons c combos)
  then have ne: "c \<noteq> []" and rest: "\<forall>c\<in>set combos. c \<noteq> []" by auto
  show ?case
  proof (cases "intersect_all sets c = []")
    case True
    then show ?thesis using Cons.IH [OF rest] ne by (simp add: reduce_intersection)
  next
    case False
    then show ?thesis using ne by (simp add: reduce_intersection)
  qed
qed

lemma combinations_nonempty:
  "c \<in> set (combinations xs (Suc r)) \<Longrightarrow> c \<noteq> []"
  using length_combinations [of c xs "Suc r"] by auto

lemma combinations_too_few: "length xs < r \<Longrightarrow> combinations xs r = []"
  by (induction xs r rule: combinations.induct) auto

lemma find_Some_set: "find P xs = Some x \<Longrightarrow> x \<in> set xs \<and> P x"
  by (induction xs) (auto split: if_splits)

lemma reduce_options_unfold:
  "reduce_options L a =
     (if a < 0 then Inl ValueError_negative_r
      else
        (case combo_loop (value_sets L) (combinations [0 ..< length (retained L)] (nat a)) [] of
           Inl e \<Rightarrow> Inl e
         | Inr isect \<Rightarrow>
             if isect = [] then Inr []
             else if retained L = [] then Inl (UnboundLocalError ''identifier_type'')
             else Inr (map (\<lambda>v. \<lparr>identifier_type = last_witnessed_kind L, value' = v,
                                   details = None\<rparr>) isect)))"
  by (simp add: reduce_options_def fold_collect_step value_sets_def last_witnessed_kind_def
      comp_def split: sum.splits)

lemma reduce_options_agree:
  assumes "1 \<le> k"
  shows "reduce_options L (int k) = Inr (agree last_witnessed_kind L k)"
proof -
  from assms obtain r where k: "k = Suc r" by (cases k) auto
  let ?n = "length (retained L)"
  let ?combos = "combinations [0 ..< ?n] k"
  let ?found = "find (\<lambda>c. intersect_all (value_sets L) c \<noteq> []) ?combos"
  have ne: "\<forall>c\<in>set ?combos. c \<noteq> []"
    using combinations_nonempty k by blast
  have loop: "combo_loop (value_sets L) ?combos [] =
      Inr (case ?found of None \<Rightarrow> [] | Some c \<Rightarrow> intersect_all (value_sets L) c)"
    by (rule combo_loop_find [OF ne])
  show ?thesis
  proof (cases ?found)
    case None
    have "reduce_options L (int k) = Inr []"
      by (simp add: reduce_options_unfold loop None)
    moreover have "agree last_witnessed_kind L k = []"
      by (simp add: agree_def None)
    ultimately show ?thesis by simp
  next
    case (Some c)
    then have cin: "c \<in> set ?combos" and cne: "intersect_all (value_sets L) c \<noteq> []"
      using find_Some_set [OF Some] by auto
    have rne: "retained L \<noteq> []"
    proof
      assume "retained L = []"
      then have "?combos = []" using k by simp
      with cin show False by simp
    qed
    have "reduce_options L (int k) =
        Inr (map (\<lambda>v. \<lparr>identifier_type = last_witnessed_kind L, value' = v, details = None\<rparr>)
               (intersect_all (value_sets L) c))"
      by (simp add: reduce_options_unfold loop Some cne rne)
    moreover have "agree last_witnessed_kind L k =
        map (\<lambda>v. \<lparr>identifier_type = last_witnessed_kind L, value' = v, details = None\<rparr>)
          (intersect_all (value_sets L) c)"
      by (simp add: agree_def Some)
    ultimately show ?thesis by simp
  qed
qed

lemma set_foldl_intersection:
  "set (foldl intersection a bs) = set a \<inter> (\<Inter>b\<in>set bs. set b)"
  by (induction bs arbitrary: a) (auto simp: intersection_def)

lemma set_intersect_all:
  "c \<noteq> [] \<Longrightarrow> set (intersect_all sets c) = (\<Inter>i\<in>set c. set (sets ! i))"
  by (cases c) (auto simp: intersect_all_def set_foldl_intersection)

lemma combinations_mono: "set (combinations xs r) \<subseteq> set (combinations (x # xs) r)"
  by (cases r) auto

lemma combinations_tl:
  "c \<in> set (combinations xs (Suc r)) \<Longrightarrow> tl c \<in> set (combinations xs r)"
proof (induction xs arbitrary: c)
  case Nil
  then show ?case by simp
next
  case (Cons x xs)
  from Cons.prems consider c' where "c = x # c'" "c' \<in> set (combinations xs r)"
    | "c \<in> set (combinations xs (Suc r))" by auto
  then show ?case
  proof cases
    case 1
    then show ?thesis using combinations_mono [of xs r x] by auto
  next
    case 2
    then have "tl c \<in> set (combinations xs r)" by (rule Cons.IH)
    then show ?thesis using combinations_mono [of xs r x] by auto
  qed
qed

lemma agree_nonempty_iff:
  "agree kind L k \<noteq> [] \<longleftrightarrow>
     (\<exists>c\<in>set (combinations [0 ..< length (retained L)] k). intersect_all (value_sets L) c \<noteq> [])"
  by (auto simp: agree_def find_None_iff split: option.splits dest: find_Some_set)

lemma agree_monotone:
  assumes "agree kind L (Suc (Suc r)) \<noteq> []"
  shows "agree kind' L (Suc r) \<noteq> []"
proof -
  let ?xs = "[0 ..< length (retained L)]"
  from assms obtain c where c: "c \<in> set (combinations ?xs (Suc (Suc r)))"
    and ne: "intersect_all (value_sets L) c \<noteq> []"
    by (auto simp: agree_nonempty_iff)
  from c have t: "tl c \<in> set (combinations ?xs (Suc r))" by (rule combinations_tl)
  then have tne: "tl c \<noteq> []" by (rule combinations_nonempty)
  then have cne: "c \<noteq> []" by auto
  have "set (tl c) \<subseteq> set c" using cne by (cases c) auto
  then have "set (intersect_all (value_sets L) c) \<subseteq> set (intersect_all (value_sets L) (tl c))"
    using tne cne by (auto simp: set_intersect_all)
  with ne have "intersect_all (value_sets L) (tl c) \<noteq> []" by auto
  with t show ?thesis by (auto simp: agree_nonempty_iff)
qed

lemma combinations_one: "combinations xs (Suc 0) = map (\<lambda>x. [x]) xs"
  by (induction xs) auto

lemma agree_one:
  assumes "retained L \<noteq> []"
  shows "map value' (agree kind L 1) = pyset (map value' (hd (retained L)))"
proof -
  let ?n = "length (retained L)"
  from assms obtain l ls where r: "retained L = l # ls" by (cases "retained L") auto
  then have "l \<in> set (retained L)" by simp
  then have lne: "l \<noteq> []" by (simp add: retained_def)
  have upt: "[0 ..< ?n] = 0 # [1 ..< ?n]" using r by (simp add: upt_conv_Cons del: upt_Suc)
  have first: "intersect_all (value_sets L) [0] = pyset (map value' l)"
    by (simp add: intersect_all_def value_sets_def r)
  have "set (pyset (map value' l)) \<noteq> {}" using lne by (simp add: pyset_def)
  then have ne: "pyset (map value' l) \<noteq> []" by auto
  have "find (\<lambda>c. intersect_all (value_sets L) c \<noteq> []) (combinations [0 ..< ?n] 1) = Some [0]"
    using first ne by (simp add: combinations_one upt del: upt_Suc)
  then show ?thesis using first r by (simp add: agree_def comp_def)
qed

lemma same_kind_first_last:
  assumes "\<forall>l\<in>set L. \<forall>x\<in>set l. identifier_type x = t" and "retained L \<noteq> []"
  shows "last_witnessed_kind L = first_witnessed_kind L"
proof -
  have mem: "l \<in> set (retained L) \<Longrightarrow> identifier_type (hd l) = t" for l
    using assms(1) by (cases l) (auto simp: retained_def)
  have "last (retained L) \<in> set (retained L)" "hd (retained L) \<in> set (retained L)"
    using assms(2) by simp_all
  then show ?thesis
    using mem by (simp add: last_witnessed_kind_def first_witnessed_kind_def)
qed

text \<open>
  C2 (amended). For every list \<open>L\<close> of candidate lists and every quorum \<open>k \<ge> 1\<close>,
  \<^verbatim>\<open>reduce_options\<close> returns what the agreement function of the specification returns
  when the kind is taken from the first identifier of the last non-empty list: the
  empty lists are discarded, each retained list becomes the set of its value strings,
  the combinations gone through are exactly the strictly increasing index lists of
  length \<open>k\<close>, in lexicographic order, the intersection of a combination is the
  intersection of its members' value sets, and the first non-empty one is returned
  (none: the empty list). Fewer than \<open>k\<close> non-empty lists give the empty list; for
  \<open>k = 1\<close> the values returned are those of the first non-empty list; and when every
  identifier of \<open>L\<close> has the same kind, the kind of the last non-empty list is the kind
  of the first.
\<close>

theorem reduce_options_is_agree:
  assumes "1 \<le> k"
  shows "reduce_options L (int k) = Inr (agree last_witnessed_kind L k)
    \<and> set (combinations [0 ..< length (retained L)] k)
        = {c. length c = k \<and> sorted_wrt (<) c \<and> set c \<subseteq> {..< length (retained L)}}
    \<and> sorted_wrt lex_less (combinations [0 ..< length (retained L)] k)
    \<and> (\<forall>c\<in>set (combinations [0 ..< length (retained L)] k).
          set (intersect_all (value_sets L) c) = (\<Inter>i\<in>set c. set (value_sets L ! i)))
    \<and> (length (retained L) < k \<longrightarrow> reduce_options L (int k) = Inr [])
    \<and> ((\<forall>c\<in>set (combinations [0 ..< length (retained L)] k).
           intersect_all (value_sets L) c = [])
         \<longrightarrow> reduce_options L (int k) = Inr [])
    \<and> (k = 1 \<and> retained L \<noteq> [] \<longrightarrow>
          map value' (agree last_witnessed_kind L k) = pyset (map value' (hd (retained L))))
    \<and> ((\<forall>l\<in>set L. \<forall>x\<in>set l. identifier_type x = t) \<and> retained L \<noteq> []
         \<longrightarrow> last_witnessed_kind L = first_witnessed_kind L)"
proof -
  let ?combos = "combinations [0 ..< length (retained L)] k"
  from assms obtain r where k: "k = Suc r" by (cases k) auto
  have a: "reduce_options L (int k) = Inr (agree last_witnessed_kind L k)"
    by (rule reduce_options_agree [OF assms])
  have b: "set ?combos = {c. length c = k \<and> sorted_wrt (<) c \<and> set c \<subseteq> {..< length (retained L)}}"
    by (rule combinations_upt)
  have c: "sorted_wrt lex_less ?combos"
    by (rule combinations_lex_sorted) simp
  have d: "\<forall>c\<in>set ?combos. set (intersect_all (value_sets L) c) = (\<Inter>i\<in>set c. set (value_sets L ! i))"
    using combinations_nonempty k set_intersect_all by blast
  have e: "length (retained L) < k \<longrightarrow> reduce_options L (int k) = Inr []"
    using a by (simp add: agree_def combinations_too_few)
  have f: "(\<forall>c\<in>set ?combos. intersect_all (value_sets L) c = []) \<longrightarrow> reduce_options L (int k) = Inr []"
  proof
    assume "\<forall>c\<in>set ?combos. intersect_all (value_sets L) c = []"
    then have "agree last_witnessed_kind L k = []"
      using agree_nonempty_iff [of last_witnessed_kind L k] by blast
    with a show "reduce_options L (int k) = Inr []" by simp
  qed
  have g: "k = 1 \<and> retained L \<noteq> [] \<longrightarrow>
      map value' (agree last_witnessed_kind L k) = pyset (map value' (hd (retained L)))"
    using agree_one by blast
  have h: "(\<forall>l\<in>set L. \<forall>x\<in>set l. identifier_type x = t) \<and> retained L \<noteq> []
      \<longrightarrow> last_witnessed_kind L = first_witnessed_kind L"
    using same_kind_first_last by blast
  from a b c d e f g h show ?thesis by blast
qed

theorem reduce_options_is_agree_witness:
  "(1::nat) \<le> 2
   \<and> reduce_options
       [[\<lparr>identifier_type = SMILES, value' = ''A'', details = None\<rparr>,
         \<lparr>identifier_type = SMILES, value' = ''C'', details = None\<rparr>],
        [],
        [\<lparr>identifier_type = SMILES, value' = ''C'', details = None\<rparr>],
        [\<lparr>identifier_type = SMILES, value' = ''B'', details = None\<rparr>]] 2
     = Inr [\<lparr>identifier_type = SMILES, value' = ''C'', details = None\<rparr>]
   \<and> length (retained [[\<lparr>identifier_type = SMILES, value' = ''A'', details = None\<rparr>], []]) < 2
   \<and> reduce_options [[\<lparr>identifier_type = SMILES, value' = ''A'', details = None\<rparr>], []] 2
     = Inr []
   \<and> list_all (\<lambda>c. intersect_all
           (value_sets [[\<lparr>identifier_type = SMILES, value' = ''A'', details = None\<rparr>],
                        [\<lparr>identifier_type = SMILES, value' = ''B'', details = None\<rparr>]]) c = [])
         (combinations [0 ..< 2] 2)
   \<and> reduce_options [[\<lparr>identifier_type = SMILES, value' = ''A'', details = None\<rparr>],
                      [\<lparr>identifier_type = SMILES, value' = ''B'', details = None\<rparr>]] 2
     = Inr []
   \<and> map value' (agree last_witnessed_kind
         [[], [\<lparr>identifier_type = SMILES, value' = ''A'', details = None\<rparr>],
              [\<lparr>identifier_type = SMILES, value' = ''B'', details = None\<rparr>]] 1)
     = [''A'']
   \<and> last_witnessed_kind
         [[], [\<lparr>identifier_type = SMILES, value' = ''A'', details = None\<rparr>],
              [\<lparr>identifier_type = SMILES, value' = ''B'', details = None\<rparr>]]
     = first_witnessed_kind
         [[], [\<lparr>identifier_type = SMILES, value' = ''A'', details = None\<rparr>],
              [\<lparr>identifier_type = SMILES, value' = ''B'', details = None\<rparr>]]"
proof -
  let ?A = "\<lparr>identifier_type = SMILES, value' = ''A'', details = None\<rparr>"
  let ?B = "\<lparr>identifier_type = SMILES, value' = ''B'', details = None\<rparr>"
  let ?C = "\<lparr>identifier_type = SMILES, value' = ''C'', details = None\<rparr>"
  let ?L = "[[?A, ?C], [], [?C], [?B]]"
  let ?M = "[[], [?A], [?B]]"
  have h: "(1::nat) \<le> 2" by simp
  have h1: "(1::nat) \<le> 1" by simp
  have e: "agree last_witnessed_kind ?L 2 = [?C]" by code_simp
  from reduce_options_is_agree [OF h, of ?L]
  have "reduce_options ?L (int 2) = Inr (agree last_witnessed_kind ?L 2)" by blast
  with e have c1: "reduce_options ?L 2 = Inr [?C]" by simp
  have few: "length (retained [[?A], []]) < 2" by code_simp
  from reduce_options_is_agree [OF h, of "[[?A], []]"] few
  have "reduce_options [[?A], []] (int 2) = Inr []" by blast
  then have c2: "reduce_options [[?A], []] 2 = Inr []" by simp
  have none: "list_all (\<lambda>c. intersect_all (value_sets [[?A], [?B]]) c = [])
      (combinations [0 ..< 2] 2)"
    by code_simp
  have r2: "length (retained [[?A], [?B]]) = 2" by code_simp
  from none r2 have "\<forall>c\<in>set (combinations [0 ..< length (retained [[?A], [?B]])] 2).
      intersect_all (value_sets [[?A], [?B]]) c = []"
    by (simp add: list_all_iff)
  with reduce_options_is_agree [OF h, of "[[?A], [?B]]"]
  have "reduce_options [[?A], [?B]] (int 2) = Inr []" by blast
  then have c3: "reduce_options [[?A], [?B]] 2 = Inr []" by simp
  have rM: "retained ?M \<noteq> []" by code_simp
  have hM: "pyset (map value' (hd (retained ?M))) = [''A'']" by code_simp
  from reduce_options_is_agree [OF h1, of ?M] rM
  have "map value' (agree last_witnessed_kind ?M 1) = pyset (map value' (hd (retained ?M)))"
    by blast
  with hM have c4: "map value' (agree last_witnessed_kind ?M 1) = [''A'']" by simp
  have same: "\<forall>l\<in>set ?M. \<forall>x\<in>set l. identifier_type x = SMILES" by simp
  from reduce_options_is_agree [OF h1, of ?M SMILES] same rM
  have c5: "last_witnessed_kind ?M = first_witnessed_kind ?M" by blast
  from h c1 few c2 none c3 c4 c5 show ?thesis by blast
qed

text \<open>
  C2 as stated fails where the non-empty lists differ in kind: with a SMILES list
  followed by an INCHI list and quorum 1 the result carries the kind INCHI of the last
  non-empty list, not the kind SMILES witnessed in the first.
\<close>

theorem reduce_options_first_kind_counterexample:
  "reduce_options
     [[\<lparr>identifier_type = SMILES, value' = ''A'', details = None\<rparr>],
      [\<lparr>identifier_type = INCHI, value' = ''A'', details = None\<rparr>]] 1
   = Inr [\<lparr>identifier_type = INCHI, value' = ''A'', details = None\<rparr>]
   \<and> agree first_witnessed_kind
     [[\<lparr>identifier_type = SMILES, value' = ''A'', details = None\<rparr>],
      [\<lparr>identifier_type = INCHI, value' = ''A'', details = None\<rparr>]] 1
   = [\<lparr>identifier_type = SMILES, value' = ''A'', details = None\<rparr>]"
  by code_simp

text \<open>
  C7. Quorum monotonicity: for every \<open>L\<close> and every \<open>k \<ge> 2\<close>, if
  \<^verbatim>\<open>reduce_options(L, k)\<close> returns a non-empty list, then \<^verbatim>\<open>reduce_options(L, k - 1)\<close>
  returns a non-empty list.
\<close>

theorem reduce_options_quorum_monotone:
  assumes "2 \<le> k" and "reduce_options L k = Inr r" and "r \<noteq> []"
  shows "\<exists>r'. reduce_options L (k - 1) = Inr r' \<and> r' \<noteq> []"
proof -
  define n where "n = nat (k - 2)"
  with assms(1) have k: "k = int (Suc (Suc n))" by simp
  have "reduce_options L (int (Suc (Suc n))) = Inr (agree last_witnessed_kind L (Suc (Suc n)))"
    by (rule reduce_options_agree) simp
  with assms(2,3) k have "agree last_witnessed_kind L (Suc (Suc n)) \<noteq> []" by simp
  then have ne: "agree last_witnessed_kind L (Suc n) \<noteq> []" by (rule agree_monotone)
  have "reduce_options L (int (Suc n)) = Inr (agree last_witnessed_kind L (Suc n))"
    by (rule reduce_options_agree) simp
  moreover have "k - 1 = int (Suc n)" using k by simp
  ultimately show ?thesis using ne by simp
qed

theorem reduce_options_quorum_monotone_witness:
  "(2::int) \<le> 2
   \<and> reduce_options
       [[\<lparr>identifier_type = SMILES, value' = ''A'', details = None\<rparr>],
        [\<lparr>identifier_type = SMILES, value' = ''A'', details = None\<rparr>]] 2
     = Inr [\<lparr>identifier_type = SMILES, value' = ''A'', details = None\<rparr>]
   \<and> [\<lparr>identifier_type = SMILES, value' = ''A'', details = None\<rparr>] \<noteq> []
   \<and> (\<exists>r'. reduce_options
       [[\<lparr>identifier_type = SMILES, value' = ''A'', details = None\<rparr>],
        [\<lparr>identifier_type = SMILES, value' = ''A'', details = None\<rparr>]] (2 - 1) = Inr r'
        \<and> r' \<noteq> [])"
proof -
  let ?L = "[[\<lparr>identifier_type = SMILES, value' = ''A'', details = None\<rparr>],
        [\<lparr>identifier_type = SMILES, value' = ''A'', details = None\<rparr>]]"
  let ?r = "[\<lparr>identifier_type = SMILES, value' = ''A'', details = None\<rparr>]"
  have h1: "(2::int) \<le> 2" by simp
  have h2: "reduce_options ?L 2 = Inr ?r" by code_simp
  have h3: "?r \<noteq> []" by simp
  from reduce_options_quorum_monotone [OF h1 h2 h3] h1 h2 h3 show ?thesis by blast
qed

section \<open>Properties of the resolver\<close>

lemma retry_loop_nonretriable:
  "retry_loop std svc i x out js = (r, evs) \<Longrightarrow> Called i' j (Raises e) \<in> set evs
     \<Longrightarrow> \<not> aiohttp_errors e \<Longrightarrow> r = Failed e"
proof (induction js arbitrary: r evs)
  case Nil
  then show ?case by simp
next
  case (Cons a js)
  show ?case
  proof (cases "svc x out a")
    case (Returns ids)
    with Cons.prems show ?thesis by auto
  next
    case (Raises e')
    show ?thesis
    proof (cases "aiohttp_errors e'")
      case True
      obtain r' evs' where rl: "retry_loop std svc i x out js = (r', evs')"
        by (cases "retry_loop std svc i x out js")
      with Cons.prems(1) Raises True have r: "r = r'"
        and evs: "evs = Called i a (Raises e') # Slept (2 ^ a) # evs'" by auto
      from Cons.prems(2,3) evs True have "Called i' j (Raises e) \<in> set evs'" by auto
      from Cons.IH [OF rl this Cons.prems(3)] r show ?thesis by simp
    next
      case False
      with Cons.prems Raises show ?thesis by auto
    qed
  qed
qed

lemma retry_loop_Failed:
  "retry_loop std svc i x out js = (Failed e, evs) \<Longrightarrow> \<not> aiohttp_errors e"
proof (induction js arbitrary: evs)
  case Nil
  then show ?case by simp
next
  case (Cons a js)
  show ?case
  proof (cases "svc x out a")
    case (Returns ids)
    with Cons.prems show ?thesis by auto
  next
    case (Raises e')
    show ?thesis
    proof (cases "aiohttp_errors e'")
      case True
      obtain r' evs' where rl: "retry_loop std svc i x out js = (r', evs')"
        by (cases "retry_loop std svc i x out js")
      with Cons.prems(1) Raises True have "r' = Failed e" by auto
      with rl Cons.IH show ?thesis by simp
    next
      case False
      with Cons.prems Raises show ?thesis by auto
    qed
  qed
qed

lemma combo_loop_error: "combo_loop sets combos isect = Inl e \<Longrightarrow> e = TypeError_reduce_empty"
proof (induction combos arbitrary: isect)
  case Nil
  then show ?case by simp
next
  case (Cons c combos)
  show ?case
  proof (cases c)
    case Nil
    with Cons.prems show ?thesis by simp
  next
    case (Cons i c')
    with Cons.prems Cons.IH show ?thesis by (auto split: if_splits)
  qed
qed

lemma reduce_options_error:
  "reduce_options L a = Inl e \<Longrightarrow> \<not> http_client_or_server_error e"
  by (auto simp: reduce_options_unfold split: if_splits sum.splits dest: combo_loop_error)

lemma check_agreement_error:
  "check_agreement i a st = Inl e \<Longrightarrow> \<not> http_client_or_server_error e"
  by (auto simp: check_agreement_def split: if_splits sum.splits dest: reduce_options_error)


lemma service_loop_silent_http:
  "service_loop True std x out a n svcs st = (ex, evs) \<Longrightarrow> Called i j (Raises e) \<in> set evs
     \<Longrightarrow> \<not> aiohttp_errors e \<Longrightarrow> http_client_or_server_error e
     \<Longrightarrow> ex = Early (Inr None) \<and> last evs = Logged (LogException e)"
proof (induction svcs arbitrary: st ex evs)
  case Nil
  then show ?case by simp
next
  case (Cons p svcs)
  obtain i0 svc where p: "p = (i0, svc)" by (cases p)
  obtain r evr where rl: "retry_loop std svc i0 x out [0 ..< n] = (r, evr)"
    by (cases "retry_loop std svc i0 x out [0 ..< n]")
  show ?case
  proof (cases "Called i j (Raises e) \<in> set evr")
    case True
    from retry_loop_nonretriable [OF rl True Cons.prems(3)] have r: "r = Failed e" .
    with Cons.prems(1,4) p rl show ?thesis by auto
  next
    case False
    show ?thesis
    proof (cases r)
      case (Failed e')
      with Cons.prems(1,2) p rl False show ?thesis by (auto split: if_splits)
    next
      case (Appended ids)
      let ?st1 = "st\<lparr>resolved_identifiers_list := resolved_identifiers_list st @ [ids],
                             resolved_identifiers := Some ids\<rparr>"
      show ?thesis
      proof (cases "check_agreement i0 a ?st1")
        case (Inl e')
        with Cons.prems(1,2) p rl False Appended show ?thesis by auto
      next
        case (Inr st2)
        show ?thesis
        proof (cases "a \<le> agreement_count st2")
          case True
          with Cons.prems(1,2) p rl False Appended Inr show ?thesis by auto
        next
          case nb: False
          obtain ex' evs' where sl: "service_loop True std x out a n svcs st2 = (ex', evs')"
            by (cases "service_loop True std x out a n svcs st2")
          with Cons.prems(1) p rl Appended Inr nb have ex: "ex = ex'" and evs: "evs = evr @ evs'"
            by auto
          with Cons.prems(2) False have m: "Called i j (Raises e) \<in> set evs'" by auto
          from Cons.IH [OF sl m Cons.prems(3,4)] have "ex' = Early (Inr None)"
            and "last evs' = Logged (LogException e)" by auto
          moreover from m have "evs' \<noteq> []" by auto
          ultimately show ?thesis using ex evs by simp
        qed
      qed
    next
      case Exhausted
      show ?thesis
      proof (cases "check_agreement i0 a st")
        case (Inl e')
        with Cons.prems(1,2) p rl False Exhausted show ?thesis by auto
      next
        case (Inr st2)
        show ?thesis
        proof (cases "a \<le> agreement_count st2")
          case True
          with Cons.prems(1,2) p rl False Exhausted Inr show ?thesis by auto
        next
          case nb: False
          obtain ex' evs' where sl: "service_loop True std x out a n svcs st2 = (ex', evs')"
            by (cases "service_loop True std x out a n svcs st2")
          with Cons.prems(1) p rl Exhausted Inr nb have ex: "ex = ex'" and evs: "evs = evr @ evs'"
            by auto
          with Cons.prems(2) False have m: "Called i j (Raises e) \<in> set evs'" by auto
          from Cons.IH [OF sl m Cons.prems(3,4)] have "ex' = Early (Inr None)"
            and "last evs' = Logged (LogException e)" by auto
          moreover from m have "evs' \<noteq> []" by auto
          ultimately show ?thesis using ex evs by simp
        qed
      qed
    qed
  qed
qed

lemma service_loop_silent_no_http:
  "service_loop True std x out a n svcs st = (Early (Inl e), evs)
     \<Longrightarrow> \<not> http_client_or_server_error e"
proof (induction svcs arbitrary: st evs)
  case Nil
  then show ?case by simp
next
  case (Cons p svcs)
  obtain i0 svc where p: "p = (i0, svc)" by (cases p)
  obtain r evr where rl: "retry_loop std svc i0 x out [0 ..< n] = (r, evr)"
    by (cases "retry_loop std svc i0 x out [0 ..< n]")
  show ?case
  proof (cases r)
    case (Failed e')
    with Cons.prems p rl show ?thesis by (auto split: if_splits)
  next
    case (Appended ids)
    let ?st1 = "st\<lparr>resolved_identifiers_list := resolved_identifiers_list st @ [ids],
                           resolved_identifiers := Some ids\<rparr>"
    show ?thesis
    proof (cases "check_agreement i0 a ?st1")
      case (Inl e')
      with Cons.prems p rl Appended check_agreement_error [OF Inl] show ?thesis by auto
    next
      case (Inr st2)
      with Cons.prems p rl Appended Cons.IH [of st2] show ?thesis
        by (auto split: if_splits prod.splits)
    qed
  next
    case Exhausted
    show ?thesis
    proof (cases "check_agreement i0 a st")
      case (Inl e')
      with Cons.prems p rl Exhausted check_agreement_error [OF Inl] show ?thesis by auto
    next
      case (Inr st2)
      with Cons.prems p rl Exhausted Cons.IH [of st2] show ?thesis
        by (auto split: if_splits prod.splits)
    qed
  qed
qed


text \<open>
  C4 (amended). In silent mode, whenever a call of a service raises an HTTP client or
  server error that the retry clause does not catch, or the loop over the services is
  left with the agreement count below the quorum, \<^verbatim>\<open>resolve_one_identifier\<close> logs that
  error as the last thing it does and returns \<open>None\<close> (not an empty list); and in silent
  mode no HTTP client or server error propagates.
\<close>

theorem silent_mode_returns_None:
  assumes "resolve_one_identifier True std services x out agreement n = (res, evs)"
  shows "(Called i j (Raises e) \<in> set evs \<and> \<not> aiohttp_errors e \<and> http_client_or_server_error e
          \<longrightarrow> res = Inr None \<and> last evs = Logged (LogException e))
    \<and> (service_loop True std x out agreement n (enumerate services)
           \<lparr>agreement_count = 0, resolved_identifiers_list = [], resolved_identifiers = None\<rparr>
          = (Left st, evs0) \<and> agreement_count st < agreement
        \<longrightarrow> res = Inr None
            \<and> evs = evs0 @ [Logged (LogNotSufficientAgreement (agreement_count st)
                               (resolved_identifiers_list st))])
    \<and> (\<forall>e'. res = Inl e' \<longrightarrow> \<not> http_client_or_server_error e')"
proof -
  let ?init = "\<lparr>agreement_count = 0, resolved_identifiers_list = [], resolved_identifiers = None\<rparr>"
  obtain ex evl where sl: "service_loop True std x out agreement n (enumerate services) ?init = (ex, evl)"
    by (cases "service_loop True std x out agreement n (enumerate services) ?init")
  have a: "res = Inr None \<and> last evs = Logged (LogException e)"
    if m: "Called i j (Raises e) \<in> set evs" and nr: "\<not> aiohttp_errors e"
      and h: "http_client_or_server_error e"
  proof (cases ex)
    case (Early r)
    with assms sl have "res = r" "evs = evl" by (simp_all add: resolve_one_identifier_def)
    with service_loop_silent_http [OF sl _ nr h] m Early show ?thesis by simp
  next
    case (Left st')
    obtain r' ev' where af: "after_services True agreement st' = (r', ev')"
      by (cases "after_services True agreement st'")
    with assms sl Left have "evs = evl @ ev'" by (simp add: resolve_one_identifier_def)
    moreover from af have "Called i j (Raises e) \<notin> set ev'"
      by (auto simp: after_services_def split: if_splits option.splits)
    ultimately have "Called i j (Raises e) \<in> set evl" using m by auto
    from service_loop_silent_http [OF sl this nr h] Left show ?thesis by simp
  qed
  have b: "res = Inr None
      \<and> evs = evs0 @ [Logged (LogNotSufficientAgreement (agreement_count st)
                         (resolved_identifiers_list st))]"
    if "service_loop True std x out agreement n (enumerate services) ?init = (Left st, evs0)"
      and "agreement_count st < agreement"
    using that assms by (simp add: resolve_one_identifier_def after_services_def)
  have c: "\<not> http_client_or_server_error e'" if r: "res = Inl e'" for e'
  proof (cases ex)
    case (Early r')
    with assms sl have "res = r'" by (simp add: resolve_one_identifier_def)
    with r Early sl service_loop_silent_no_http show ?thesis by blast
  next
    case (Left st')
    with assms sl r show ?thesis
      by (auto simp: resolve_one_identifier_def after_services_def
          split: if_splits option.splits)
  qed
  from a b c show ?thesis by blast
qed

theorem silent_mode_returns_None_witness:
  "resolve_one_identifier True id [\<lambda>x out j. Raises HTTPBadRequest]
       \<lparr>identifier_type = NAME, value' = ''aspirin'', details = None\<rparr> [SMILES] 1 7
     = (Inr None, [Called 0 0 (Raises HTTPBadRequest), Logged (LogException HTTPBadRequest)])
   \<and> \<not> aiohttp_errors HTTPBadRequest \<and> http_client_or_server_error HTTPBadRequest
   \<and> last [Called 0 0 (Raises HTTPBadRequest), Logged (LogException HTTPBadRequest)]
       = Logged (LogException HTTPBadRequest)
   \<and> service_loop True id \<lparr>identifier_type = NAME, value' = ''aspirin'', details = None\<rparr>
        [SMILES] 2 7
        (enumerate [\<lambda>x out j. Returns [\<lparr>identifier_type = SMILES, value' = ''A'', details = None\<rparr>]])
        \<lparr>agreement_count = 0, resolved_identifiers_list = [], resolved_identifiers = None\<rparr>
     = (Left \<lparr>agreement_count = 1,
              resolved_identifiers_list =
                [[\<lparr>identifier_type = SMILES, value' = ''A'', details = None\<rparr>]],
              resolved_identifiers =
                Some [\<lparr>identifier_type = SMILES, value' = ''A'', details = None\<rparr>]\<rparr>,
        [Called 0 0 (Returns [\<lparr>identifier_type = SMILES, value' = ''A'', details = None\<rparr>])])
   \<and> resolve_one_identifier True id
        [\<lambda>x out j. Returns [\<lparr>identifier_type = SMILES, value' = ''A'', details = None\<rparr>]]
        \<lparr>identifier_type = NAME, value' = ''aspirin'', details = None\<rparr> [SMILES] 2 7
     = (Inr None,
        [Called 0 0 (Returns [\<lparr>identifier_type = SMILES, value' = ''A'', details = None\<rparr>])]
        @ [Logged (LogNotSufficientAgreement 1
                    [[\<lparr>identifier_type = SMILES, value' = ''A'', details = None\<rparr>]])])
   \<and> resolve_one_identifier True id [\<lambda>x out j. Raises (ValueError_input_type CAS_NUMBER)]
        \<lparr>identifier_type = CAS_NUMBER, value' = ''50-78-2'', details = None\<rparr> [SMILES] 1 7
     = (Inl (ValueError_input_type CAS_NUMBER),
        [Called 0 0 (Raises (ValueError_input_type CAS_NUMBER))])
   \<and> \<not> http_client_or_server_error (ValueError_input_type CAS_NUMBER)"
proof -
  let ?x = "\<lparr>identifier_type = NAME, value' = ''aspirin'', details = None\<rparr>"
  let ?A = "\<lparr>identifier_type = SMILES, value' = ''A'', details = None\<rparr>"
  let ?bad = "\<lambda>(x::CompoundIdentifier) (out::CompoundIdentifierType list) (j::nat). Raises HTTPBadRequest"
  let ?svc = "\<lambda>(x::CompoundIdentifier) (out::CompoundIdentifierType list) (j::nat). Returns [?A]"
  let ?evs = "[Called 0 0 (Raises HTTPBadRequest), Logged (LogException HTTPBadRequest)]"
  let ?st = "\<lparr>agreement_count = 1, resolved_identifiers_list = [[?A]],
             resolved_identifiers = Some [?A]\<rparr>"
  have r1: "resolve_one_identifier True id [?bad] ?x [SMILES] 1 7 = (Inr None, ?evs)"
    by code_simp
  have m: "Called 0 0 (Raises HTTPBadRequest) \<in> set ?evs" by simp
  have c: "\<not> aiohttp_errors HTTPBadRequest" "http_client_or_server_error HTTPBadRequest"
    by simp_all
  from silent_mode_returns_None [OF r1, of 0 0 HTTPBadRequest] m c
  have l: "last ?evs = Logged (LogException HTTPBadRequest)" by blast
  have sl: "service_loop True id ?x [SMILES] 2 7 (enumerate [?svc])
      \<lparr>agreement_count = 0, resolved_identifiers_list = [], resolved_identifiers = None\<rparr>
      = (Left ?st, [Called 0 0 (Returns [?A])])"
    by code_simp
  obtain res evs where r2: "resolve_one_identifier True id [?svc] ?x [SMILES] 2 7 = (res, evs)"
    by (cases "resolve_one_identifier True id [?svc] ?x [SMILES] 2 7")
  have lt: "agreement_count ?st < 2" by simp
  from silent_mode_returns_None [OF r2, of _ _ _ ?st "[Called 0 0 (Returns [?A])]"] sl lt
  have "res = Inr None \<and> evs = [Called 0 0 (Returns [?A])]
      @ [Logged (LogNotSufficientAgreement (agreement_count ?st) (resolved_identifiers_list ?st))]"
    by blast
  with r2 have r2': "resolve_one_identifier True id [?svc] ?x [SMILES] 2 7
      = (Inr None, [Called 0 0 (Returns [?A])] @ [Logged (LogNotSufficientAgreement 1 [[?A]])])"
    by simp
  have r3: "resolve_one_identifier True id [\<lambda>x out j. Raises (ValueError_input_type CAS_NUMBER)]
        \<lparr>identifier_type = CAS_NUMBER, value' = ''50-78-2'', details = None\<rparr> [SMILES] 1 7
     = (Inl (ValueError_input_type CAS_NUMBER),
        [Called 0 0 (Raises (ValueError_input_type CAS_NUMBER))])"
    by code_simp
  from silent_mode_returns_None [OF r3]
  have n3: "\<not> http_client_or_server_error (ValueError_input_type CAS_NUMBER)" by blast
  from r1 c l sl r2' r3 n3 show ?thesis by blast
qed

text \<open>
  C4 as stated fails: in silent mode the value returned after a client error, and
  after a quorum that was not reached, is \<open>None\<close>, not the empty list.
\<close>

theorem silent_mode_empty_list_counterexample:
  "fst (resolve_one_identifier True id [\<lambda>x out j. Raises HTTPBadRequest]
          \<lparr>identifier_type = NAME, value' = ''aspirin'', details = None\<rparr> [SMILES] 1 7)
     = Inr None
   \<and> fst (resolve_one_identifier True id [\<lambda>x out j. Raises HTTPBadRequest]
          \<lparr>identifier_type = NAME, value' = ''aspirin'', details = None\<rparr> [SMILES] 1 7)
     \<noteq> Inr (Some [])
   \<and> fst (resolve_one_identifier True id []
          \<lparr>identifier_type = NAME, value' = ''aspirin'', details = None\<rparr> [SMILES] 1 7)
     = Inr None
   \<and> fst (resolve_one_identifier True id []
          \<lparr>identifier_type = NAME, value' = ''aspirin'', details = None\<rparr> [SMILES] 1 7)
     \<noteq> Inr (Some [])"
  by code_simp

text \<open>
  C10. Called with an empty list of input identifiers and no batch size,
  \<^verbatim>\<open>resolve\<close> sets the batch size to the number of inputs, zero, and the batch count
  divides by it: the call raises ZeroDivisionError instead of returning an empty list.
\<close>

theorem resolve_empty_input_raises:
  "resolve silent standardize services sched [] output_identifier_type agreement None
     = Inl ZeroDivisionError
   \<and> resolve_async silent standardize services sched [] output_identifier_type agreement None
     = Inl ZeroDivisionError"
  by (simp add: resolve_def resolve_async_def)

text \<open>
  C3. In strict mode two services that disagree (SMILES A against SMILES B) under a
  quorum of 2 end with the empty list being returned, not with an exception; so does
  one service that returned SMILES A followed by one that never responded; and a single
  service that returned nothing satisfies a quorum of 1. The agreement count is raised
  once per service visited after the first response, whatever \<^verbatim>\<open>reduce_options\<close>
  returned.
\<close>

theorem strict_mode_accepts_without_agreement:
  "resolve_one_identifier False id
     [\<lambda>x out j. Returns [\<lparr>identifier_type = SMILES, value' = ''A'', details = None\<rparr>],
      \<lambda>x out j. Returns [\<lparr>identifier_type = SMILES, value' = ''B'', details = None\<rparr>]]
     \<lparr>identifier_type = NAME, value' = ''aspirin'', details = None\<rparr> [SMILES] 2 7
   = (Inr (Some []),
      [Called 0 0 (Returns [\<lparr>identifier_type = SMILES, value' = ''A'', details = None\<rparr>]),
       Called 1 0 (Returns [\<lparr>identifier_type = SMILES, value' = ''B'', details = None\<rparr>])])
   \<and> fst (resolve_one_identifier False id
     [\<lambda>x out j. Returns [\<lparr>identifier_type = SMILES, value' = ''A'', details = None\<rparr>],
      \<lambda>x out j. Raises HTTPServiceUnavailable]
     \<lparr>identifier_type = NAME, value' = ''aspirin'', details = None\<rparr> [SMILES] 2 7)
   = Inr (Some [])
   \<and> resolve_one_identifier False id [\<lambda>x out j. Returns []]
     \<lparr>identifier_type = NAME, value' = ''aspirin'', details = None\<rparr> [SMILES] 1 7
   = (Inr (Some []), [Called 0 0 (Returns [])])"
  by code_simp

text \<open>
  C1. Two inputs in one batch, the task of the second completing first: the list
  returned holds the result for the second input at position 0 and the result for the
  first at position 1.
\<close>

theorem resolve_returns_completion_order:
  "resolve False id
     [\<lambda>x out j. Returns [\<lparr>identifier_type = SMILES, value' = value' x, details = None\<rparr>]]
     (\<lambda>batch. [1, 0])
     [\<lparr>identifier_type = NAME, value' = ''a'', details = None\<rparr>,
      \<lparr>identifier_type = NAME, value' = ''b'', details = None\<rparr>] [SMILES] 1 None
   = Inr [Some [\<lparr>identifier_type = SMILES, value' = ''b'', details = None\<rparr>],
          Some [\<lparr>identifier_type = SMILES, value' = ''a'', details = None\<rparr>]]
   \<and> fst (resolve_task False id
     [\<lambda>x out j. Returns [\<lparr>identifier_type = SMILES, value' = value' x, details = None\<rparr>]]
     [SMILES] 1 \<lparr>identifier_type = NAME, value' = ''a'', details = None\<rparr>)
   = Inr (Some [\<lparr>identifier_type = SMILES, value' = ''a'', details = None\<rparr>])"
  by code_simp

section \<open>Properties of the PubChem adapter and of the retry policy\<close>


lemma retry_loop_first_not_caught:
  assumes "service x out 0 = Raises e" and "\<not> aiohttp_errors e" and "0 < n"
  shows "retry_loop std service i x out [0 ..< n] = (Failed e, [Called i 0 (Raises e)])"
proof -
  from assms(3) have "[0 ..< n] = 0 # [1 ..< n]" by (simp add: upt_conv_Cons del: upt_Suc)
  with assms(1,2) show ?thesis by simp
qed

lemma retry_loop_first_returns:
  assumes "service x out 0 = Returns ids" and "0 < n"
  shows "retry_loop std service i x out [0 ..< n]
    = (Appended (map std ids), [Called i 0 (Returns ids)])"
proof -
  from assms(2) have "[0 ..< n] = 0 # [1 ..< n]" by (simp add: upt_conv_Cons del: upt_Suc)
  with assms(1) show ?thesis by simp
qed

lemma enumerate_single: "enumerate [s] = [(0, s)]"
  by (simp add: enumerate_def)









text \<open>
  Two places of the source fail before the classification of a fault can take effect;
  both are left out of the classification of the fault codes below. The branch for NotAllowed raises TypeError, which
  neither \<^verbatim>\<open>except\<close> clause of the resolver catches: it is not retried, and it propagates
  in silent mode too. And the resolver passes the keyword \<^verbatim>\<open>output_identifier_type\<close>,
  which \<^verbatim>\<open>PubChem.resolve_compound\<close> does not have: whatever the body of the adapter
  would do, the call of the adapter by the resolver raises TypeError at the first
  attempt. What is said of the resolver below is therefore said of any service whose
  call raises the exceptions in question.
\<close>

lemma NotAllowed_raises_TypeError:
  "fault_exception ''PUGREST.NotAllowed''
     = Some (TypeError_missing_arguments [''method'', ''allowed_methods''])
   \<and> \<not> aiohttp_errors (TypeError_missing_arguments [''method'', ''allowed_methods''])
   \<and> \<not> http_client_or_server_error (TypeError_missing_arguments [''method'', ''allowed_methods''])"
  by (simp add: fault_exception_def)

lemma NotAllowed_propagates:
  assumes "service x out 0 = Raises (TypeError_missing_arguments [''method'', ''allowed_methods''])"
    and "0 < n"
  shows "resolve_one_identifier silent std [service] x out agreement n
    = (Inl (TypeError_missing_arguments [''method'', ''allowed_methods'']),
       [Called 0 0 (Raises (TypeError_missing_arguments [''method'', ''allowed_methods'']))])"
  using assms retry_loop_first_not_caught
    [where service = service and x = x and out = out and n = n and std = std and i = 0
       and e = "TypeError_missing_arguments [''method'', ''allowed_methods'']"]
  by (simp add: resolve_one_identifier_def enumerate_single)

lemma resolver_call_PubChem:
  "resolver_call PubChem_resolve_compound_parameters body
     = Raises (TypeError_unexpected_keyword ''output_identifier_type'')"
  by (simp add: resolver_call_def keyword_call_def PubChem_resolve_compound_parameters_def)

lemma resolver_with_PubChem_raises:
  assumes "0 < n"
  shows "resolve_one_identifier silent std
      [\<lambda>x out j. resolver_call PubChem_resolve_compound_parameters (body x out j)]
      x out agreement n
    = (Inl (TypeError_unexpected_keyword ''output_identifier_type''),
       [Called 0 0 (Raises (TypeError_unexpected_keyword ''output_identifier_type''))])"
  using assms retry_loop_first_not_caught
    [where service = "\<lambda>x out j. resolver_call PubChem_resolve_compound_parameters (body x out j)"
       and x = x and out = out and n = n and std = std and i = 0
       and e = "TypeError_unexpected_keyword ''output_identifier_type''"]
  by (simp add: resolve_one_identifier_def enumerate_single resolver_call_PubChem)




lemma output_of_representations_no_rows:
  "output_of_representations omap representations [] = Inr []"
  by (induction representations) simp_all

lemma search_loop_suggestions_forever:
  assumes "\<forall>req. session req =
      (if query req = [] then Inr (Fault ''PUGREST.NotFound'')
       else Inr (DictionaryTerms [''aspirin'']))"
    and "self_autocomplete self"
  shows "v \<noteq> [] \<Longrightarrow>
    search_loop fuel self omap session properties representations namespace [v] False
      output_identifiers calls = None"
proof (induction fuel arbitrary: v output_identifiers calls)
  case 0
  then show ?case by simp
next
  case (Suc fuel)
  have g: "get_properties session properties v namespace = Inr []"
    using assms(1) Suc.prems
    by (simp add: get_properties_def request_def Let_def fault_exception_def)
  have a: "autocomplete session v (self_autocomplete_limit self) = Inr [''aspirin'']"
    using assms(1) Suc.prems by (simp add: autocomplete_def request_def Let_def)
  have "search_loop fuel self omap session properties representations namespace [''aspirin'']
      False (Some []) (calls @ [Get_properties v, Autocomplete v]) = None"
    by (rule Suc.IH) simp
  with g a assms(2) show ?case by (simp add: output_of_representations_no_rows)
qed

text \<open>
  C6. With autocomplete enabled, a misspelt name whose suggestion is not found either
  makes one resolution issue the autocomplete request twice (once for the input, once
  for the suggestion): \<^verbatim>\<open>autocomplete_tried\<close> is never set. When the suggestion service
  keeps answering with a name that is not found, the resolution issues autocomplete
  requests without end and does not return, whatever the fuel.
\<close>

theorem autocomplete_requested_twice:
  "resolve_compound 3 \<lparr>self_autocomplete = True, self_autocomplete_limit = 1\<rparr>
     input_table output_table
     (\<lambda>req. if query req = [] then Inr (Fault ''PUGREST.NotFound'')
             else if postdata req = [(None, ''asprin'')] then Inr (DictionaryTerms [''aspirin''])
             else Inr OtherObject)
     \<lparr>identifier_type = NAME, value' = ''asprin'', details = None\<rparr> [SMILES]
   = Some (Inr [],
       [Get_properties ''asprin'', Autocomplete ''asprin'',
        Get_properties ''aspirin'', Autocomplete ''aspirin''])
   \<and> (\<forall>fuel.
        resolve_compound fuel \<lparr>self_autocomplete = True, self_autocomplete_limit = 1\<rparr>
          input_table output_table
          (\<lambda>req. if query req = [] then Inr (Fault ''PUGREST.NotFound'')
                  else Inr (DictionaryTerms [''aspirin'']))
          \<lparr>identifier_type = NAME, value' = ''asprin'', details = None\<rparr> [SMILES]
        = None)"
proof -
  let ?self = "\<lparr>self_autocomplete = True, self_autocomplete_limit = 1\<rparr>"
  let ?x = "\<lparr>identifier_type = NAME, value' = ''asprin'', details = None\<rparr>"
  let ?s2 = "\<lambda>req::http_request. if query req = [] then Inr (Fault ''PUGREST.NotFound'')
                  else (Inr (DictionaryTerms [''aspirin'']) :: exn + response)"
  have one: "resolve_compound 3 ?self input_table output_table
     (\<lambda>req. if query req = [] then Inr (Fault ''PUGREST.NotFound'')
             else if postdata req = [(None, ''asprin'')] then Inr (DictionaryTerms [''aspirin''])
             else Inr OtherObject) ?x [SMILES]
   = Some (Inr [],
       [Get_properties ''asprin'', Autocomplete ''asprin'',
        Get_properties ''aspirin'', Autocomplete ''aspirin''])"
    by code_simp
  have two: "resolve_compound fuel ?self input_table output_table ?s2 ?x [SMILES] = None" for fuel
  proof -
    have "search_loop fuel ?self output_table ?s2 [''CanonicalSMILES''] [''CanonicalSMILES'']
        ''name'' [''asprin''] False None [] = None"
      by (rule search_loop_suggestions_forever) simp_all
    then show ?thesis
      by (simp add: resolve_compound_def input_table_def output_table_def pyset_def)
  qed
  from one two show ?thesis by blast
qed

section \<open>Completion order and agreement counting in general\<close>

text \<open>
  When the tasks of every batch complete in the order in which they were created, the
  list \<^verbatim>\<open>_resolve\<close> returns is in input order, for every positive batch size: the
  order of the results is the completion order and nothing else.
  In strict mode, when every service answers its first call (with any list, empty or
  not) and there are at least as many services as the quorum asks for, the resolution
  returns a value and does not raise: the agreement count counts the services visited.
\<close>

lemma await_all_append:
  "await_all (xs @ ys) =
     (case await_all xs of
        Inl e \<Rightarrow> Inl e
      | Inr rs \<Rightarrow> (case await_all ys of Inl e \<Rightarrow> Inl e | Inr rs' \<Rightarrow> Inr (rs @ rs')))"
proof (induction xs)
  case Nil
  then show ?case by (simp split: sum.splits)
next
  case (Cons a xs)
  then show ?case by (cases a) (simp_all split: sum.splits)
qed

lemma as_completed_in_order: "as_completed [0 ..< length tasks] tasks = tasks"
  by (simp add: as_completed_def map_nth)

lemma batch_loop_in_order:
  assumes "0 < bs"
    and "\<forall>b. sched b = [0 ..< length (take bs (drop (b * bs) inputs))]"
  shows "length inputs \<le> nb * bs \<Longrightarrow> k \<le> nb \<Longrightarrow>
    batch_loop task sched inputs (int bs) [k ..< nb] resolved =
      (case await_all (map task (drop (k * bs) inputs)) of
         Inl e \<Rightarrow> Inl e
       | Inr rs \<Rightarrow> Inr (resolved @ rs))"
proof (induction "nb - k" arbitrary: k resolved)
  case 0
  then have "k = nb" by simp
  with "0.prems" show ?case by simp
next
  case (Suc d)
  then have lt: "k < nb" by simp
  then have upt: "[k ..< nb] = k # [Suc k ..< nb]" by (simp add: upt_conv_Cons)
  let ?rest = "drop (k * bs) inputs"
  let ?batch = "take bs ?rest"
  have "drop bs ?rest = drop (Suc k * bs) inputs" by simp
  then have split: "?rest = ?batch @ drop (Suc k * bs) inputs"
    using append_take_drop_id [of bs ?rest] by simp
  have sched: "as_completed (sched k) (map task ?batch) = map task ?batch"
    using assms(2) as_completed_in_order [of "map task ?batch"] by simp
  have ih: "batch_loop task sched inputs (int bs) [Suc k ..< nb] r =
      (case await_all (map task (drop (Suc k * bs) inputs)) of
         Inl e \<Rightarrow> Inl e
       | Inr rs \<Rightarrow> Inr (r @ rs))" for r
    using Suc.hyps(1) [of "Suc k" r] Suc.hyps(2) Suc.prems lt by simp
  have "map task ?rest = map task ?batch @ map task (drop (Suc k * bs) inputs)"
    using split by (metis map_append)
  then have aw: "await_all (map task ?rest) =
      (case await_all (map task ?batch) of
        Inl e \<Rightarrow> Inl e
      | Inr rs \<Rightarrow> (case await_all (map task (drop (Suc k * bs) inputs)) of
                      Inl e \<Rightarrow> Inl e | Inr rs' \<Rightarrow> Inr (rs @ rs')))"
    by (simp only: await_all_append)
  show ?case
    unfolding upt aw
    by (simp add: Let_def sched ih nat_mult_distrib split: sum.splits)
qed


lemma resolve_async_in_order:
  assumes "0 < bs"
    and "\<forall>b. sched b = [0 ..< length (take bs (drop (b * bs) inputs))]"
  shows "resolve_async silent std services sched inputs out agreement (Some (int bs)) =
    await_all (map (\<lambda>x. fst (resolve_task silent std services out agreement x)) inputs)"
proof -
  let ?n = "length inputs"
  let ?nb = "?n div bs + (if ?n mod bs = 0 then 0 else 1)"
  let ?task = "\<lambda>x. fst (resolve_task silent std services out agreement x)"
  have nb: "nat (int ?n div int bs + (if int ?n mod int bs = 0 then 0 else 1)) = ?nb"
    by (simp add: zdiv_int [symmetric] zmod_int [symmetric] nat_add_distrib)
  have e: "?n div bs * bs + ?n mod bs = ?n" by (rule div_mult_mod_eq)
  have m: "?n mod bs < bs" using assms(1) by simp
  have cover: "?n \<le> ?nb * bs"
  proof (cases "?n mod bs = 0")
    case True
    with e have "?n div bs * bs = ?n" by linarith
    with True show ?thesis by simp
  next
    case False
    then have "?nb * bs = ?n div bs * bs + bs" by (simp add: add_mult_distrib)
    with e m show ?thesis by linarith
  qed
  have "batch_loop ?task sched inputs (int bs) [0 ..< ?nb] [] =
      (case await_all (map ?task (drop (0 * bs) inputs)) of
         Inl e \<Rightarrow> Inl e
       | Inr rs \<Rightarrow> Inr ([] @ rs))"
    by (rule batch_loop_in_order [OF assms cover]) simp
  then have "batch_loop ?task sched inputs (int bs) [0 ..< ?nb] [] = await_all (map ?task inputs)"
    by (simp split: sum.splits)
  then show ?thesis using assms(1) nb
    by (simp add: resolve_async_def Let_def del: upt_Suc)
qed

lemma reduce_options_returns:
  assumes "1 \<le> agreement"
  shows "\<exists>r. reduce_options L agreement = Inr r"
proof -
  from assms have "1 \<le> nat agreement" "int (nat agreement) = agreement" by simp_all
  with reduce_options_agree [of "nat agreement" L] show ?thesis by auto
qed

lemma service_loop_all_respond:
  assumes "0 < n" and "1 \<le> agreement"
  shows "\<forall>s\<in>set svcs. \<exists>ids. s x out 0 = Returns ids \<Longrightarrow> agreement_count st = int k
    \<Longrightarrow> (0 < k \<longrightarrow> resolved_identifiers_list st \<noteq> [])
    \<Longrightarrow> int k < agreement \<Longrightarrow> agreement \<le> int (k + length svcs)
    \<Longrightarrow> \<exists>st' evs. service_loop silent std x out agreement n (zip [k ..< k + length svcs] svcs) st
            = (Left st', evs)
          \<and> agreement \<le> agreement_count st' \<and> resolved_identifiers st' \<noteq> None"
proof (induction svcs arbitrary: k st)
  case Nil
  then show ?case by simp
next
  case (Cons s svcs)
  from Cons.prems(1) obtain ids where ids: "s x out 0 = Returns ids" by auto
  have z: "zip [k ..< k + length (s # svcs)] (s # svcs)
      = (k, s) # zip [Suc k ..< Suc k + length svcs] svcs"
    by (simp add: upt_conv_Cons del: upt_Suc)
  have rl: "retry_loop std s k x out [0 ..< n]
      = (Appended (map std ids), [Called k 0 (Returns ids)])"
    using retry_loop_first_returns
      [where service = s and x = x and out = out and ids = ids and n = n and std = std and i = k]
      ids assms(1) by simp
  let ?st1 = "st\<lparr>resolved_identifiers_list := resolved_identifiers_list st @ [map std ids],
                resolved_identifiers := Some (map std ids)\<rparr>"
  obtain st2 where ca: "check_agreement k agreement ?st1 = Inr st2"
    and c2: "agreement_count st2 = int (Suc k)"
    and l2: "resolved_identifiers_list st2 \<noteq> []"
    and r2: "resolved_identifiers st2 \<noteq> None"
  proof (cases "0 < k")
    case True
    from reduce_options_returns [OF assms(2)] obtain r where
      "reduce_options (resolved_identifiers_list st @ [map std ids]) agreement = Inr r" by blast
    with True Cons.prems(2) that show ?thesis by (simp add: check_agreement_def)
  next
    case False
    with Cons.prems(2) that show ?thesis by (simp add: check_agreement_def)
  qed
  show ?case
  proof (cases "agreement \<le> agreement_count st2")
    case True
    with z rl ca r2 show ?thesis by simp
  next
    case False
    with c2 have lt: "int (Suc k) < agreement" by simp
    from Cons.prems(5) have le: "agreement \<le> int (Suc k + length svcs)" by simp
    from Cons.prems(1) have all: "\<forall>s\<in>set svcs. \<exists>ids. s x out 0 = Returns ids" by simp
    from Cons.IH [OF all c2 _ lt le] l2 obtain st' evs where
      sl: "service_loop silent std x out agreement n (zip [Suc k ..< Suc k + length svcs] svcs) st2
        = (Left st', evs)"
      and ok: "agreement \<le> agreement_count st'" "resolved_identifiers st' \<noteq> None"
      by blast
    from z rl ca False sl ok show ?thesis by simp
  qed
qed

lemma strict_returns_when_enough_respond:
  assumes "0 < n" and "1 \<le> agreement" and "agreement \<le> int (length services)"
    and "\<forall>s\<in>set services. \<exists>ids. s x out 0 = Returns ids"
  shows "\<exists>r evs. resolve_one_identifier False std services x out agreement n = (Inr (Some r), evs)"
proof -
  let ?init = "\<lparr>agreement_count = 0, resolved_identifiers_list = [], resolved_identifiers = None\<rparr>"
  have "\<exists>st' evs. service_loop False std x out agreement n
            (zip [0 ..< 0 + length services] services) ?init = (Left st', evs)
          \<and> agreement \<le> agreement_count st' \<and> resolved_identifiers st' \<noteq> None"
    by (rule service_loop_all_respond [OF assms(1,2) assms(4)]) (use assms in simp_all)
  then obtain st' evs where sl: "service_loop False std x out agreement n (enumerate services) ?init
      = (Left st', evs)"
    and ok: "agreement \<le> agreement_count st'" "resolved_identifiers st' \<noteq> None"
    by (auto simp: enumerate_def)
  from ok obtain r where "resolved_identifiers st' = Some r" by auto
  with sl ok(1) show ?thesis
    by (simp add: resolve_one_identifier_def after_services_def)
qed

end
